theory Spec2Isabelle
  imports Main "HOL-Library.Word"
begin

section \<open>Bytes, Python exceptions and the module constants\<close>

type_synonym byte = "8 word"

text \<open>
  The exception classes the program can meet. \<open>IOError\<close> is Python 3's alias of
  \<open>OSError\<close>; the file and socket errors below it are its subclasses, which is what
  \<open>except IOError\<close> catches. Every class listed derives from \<open>Exception\<close>.
\<close>

datatype exn =
    FileNotFoundError | IsADirectoryError | PermissionError | NotADirectoryError
  | ConnectionRefusedError | ConnectionResetError | BrokenPipeError | gaierror | OSError
  | JSONDecodeError | UnicodeDecodeError | ValueError | OverflowError
  | KeyError | TypeError | AttributeError

fun isIOError :: "exn \<Rightarrow> bool" where
  "isIOError FileNotFoundError = True"
| "isIOError IsADirectoryError = True"
| "isIOError PermissionError = True"
| "isIOError NotADirectoryError = True"
| "isIOError ConnectionRefusedError = True"
| "isIOError ConnectionResetError = True"
| "isIOError BrokenPipeError = True"
| "isIOError gaierror = True"
| "isIOError OSError = True"
| "isIOError _ = False"

definition uploadsDir :: string where
  "uploadsDir = ''Uploads''"

definition downloadsDir :: string where
  "downloadsDir = ''Downloads''"

definition addressBookFile :: string where
  "addressBookFile = ''address_book.json''"

definition chunkSize :: nat where
  "chunkSize = 32 * 1024"

section \<open>Paths\<close>

text \<open>\<open>os.path.join(a, b)\<close> of \<open>posixpath\<close>, for two arguments.\<close>

definition pathJoin :: "string \<Rightarrow> string \<Rightarrow> string" where
  "pathJoin a b =
     (if take 1 b = ''/'' then b
      else if a = [] \<or> last a = CHR ''/'' then a @ b
      else a @ ''/'' @ b)"

text \<open>\<open>s.split(sep)\<close> for a one-character separator: the pieces, empty ones included.\<close>

fun splitOn :: "char \<Rightarrow> string \<Rightarrow> string list" where
  "splitOn sep [] = [[]]"
| "splitOn sep (c # cs) =
     (if c = sep then [] # splitOn sep cs
      else (case splitOn sep cs of [] \<Rightarrow> [[c]] | w # ws \<Rightarrow> (c # w) # ws))"

text \<open>\<open>'/'.join(comps)\<close>.\<close>

fun joinSlash :: "string list \<Rightarrow> string" where
  "joinSlash [] = []"
| "joinSlash [c] = c"
| "joinSlash (c # cs) = c @ ''/'' @ joinSlash cs"

text \<open>The name of an entry of a directory: no separator, and not \<open>.\<close> or \<open>..\<close>.\<close>

definition plainName :: "string \<Rightarrow> bool" where
  "plainName f = (f \<noteq> [] \<and> f \<noteq> ''.'' \<and> f \<noteq> ''..'' \<and> CHR ''/'' \<notin> set f)"

text \<open>A resolved path, relative to the current directory, that lies below the directory \<open>d\<close>.\<close>

definition insideDir :: "string \<Rightarrow> string \<Rightarrow> bool" where
  "insideDir d k = (take (Suc (length d)) k = d @ ''/'')"

section \<open>The file system\<close>

text \<open>
  A file system maps the resolved path of a node to the node. \<open>Special\<close> is a readable
  node that is not a regular file (a FIFO, a character device) with the bytes a reader
  gets from it; \<open>Denied\<close> is a file the process may not open. Symbolic links are not
  modelled.
\<close>

datatype node = Regular "byte list" | Directory | Special "byte list" | Denied

type_synonym fs = "string \<Rightarrow> node option"

text \<open>
  The place a path walk has reached: whether it started at the root, and the names
  below the root or the current directory. A walk from the current directory may climb
  above it, and then the place starts with \<open>..\<close> entries. The current directory, the
  root and the directories above the current one exist and are directories whatever the
  map says. A place is its own key of the map: an absolute path and a path that climbs
  above the current directory are not identified with a relative path to the same file.
\<close>

type_synonym place = "bool \<times> string list"

definition keyOf :: "place \<Rightarrow> string" where
  "keyOf pl =
     (if fst pl then ''/'' @ joinSlash (snd pl)
      else if snd pl = [] then ''.''
      else joinSlash (snd pl))"

definition implicitPlace :: "place \<Rightarrow> bool" where
  "implicitPlace pl = list_all (\<lambda>c. c = ''..'') (snd pl)"

definition nodeAt :: "fs \<Rightarrow> place \<Rightarrow> node option" where
  "nodeAt fs pl = (if implicitPlace pl then Some Directory else fs (keyOf pl))"

definition up :: "place \<Rightarrow> place" where
  "up pl =
     (if snd pl = [] then (if fst pl then pl else (False, [''..'']))
      else if last (snd pl) = ''..'' then (fst pl, snd pl @ [''..''])
      else (fst pl, butlast (snd pl)))"

text \<open>
  The kernel's walk along the components of a path: every step, also an empty
  component and \<open>.\<close>, starts in a directory, or the walk fails.
\<close>

fun walk :: "fs \<Rightarrow> place \<Rightarrow> string list \<Rightarrow> exn + place" where
  "walk fs pl [] = Inr pl"
| "walk fs pl (c # cs) =
     (case nodeAt fs pl of
        None \<Rightarrow> Inl FileNotFoundError
      | Some Directory \<Rightarrow>
          walk fs (if c = [] \<or> c = ''.'' then pl
                   else if c = ''..'' then up pl
                   else (fst pl, snd pl @ [c])) cs
      | Some _ \<Rightarrow> Inl NotADirectoryError)"

definition startPlace :: "string \<Rightarrow> place" where
  "startPlace p = (take 1 p = ''/'', [])"

text \<open>
  The place a path names. The empty path names nothing, and Python refuses a path
  with a NUL character before the kernel sees it.
\<close>

definition resolve :: "fs \<Rightarrow> string \<Rightarrow> exn + place" where
  "resolve fs p =
     (if p = [] then Inl FileNotFoundError
      else if CHR 0x00 \<in> set p then Inl ValueError
      else walk fs (startPlace p) (splitOn (CHR ''/'') p))"

definition lookup :: "fs \<Rightarrow> string \<Rightarrow> node option" where
  "lookup fs p = (case resolve fs p of Inl e \<Rightarrow> None | Inr pl \<Rightarrow> nodeAt fs pl)"

text \<open>\<open>os.path.exists\<close> and \<open>os.path.isfile\<close>; both answer \<open>False\<close> where the walk fails.\<close>

definition pathExists :: "fs \<Rightarrow> string \<Rightarrow> bool" where
  "pathExists fs p = (lookup fs p \<noteq> None)"

definition isfile :: "fs \<Rightarrow> string \<Rightarrow> bool" where
  "isfile fs p = (case lookup fs p of Some (Regular _) \<Rightarrow> True | _ \<Rightarrow> False)"

text \<open>\<open>open(p, 'rb')\<close> followed by reading: the bytes a reader gets, or the error.\<close>

definition openRead :: "fs \<Rightarrow> string \<Rightarrow> exn + byte list" where
  "openRead fs p =
     (case resolve fs p of
        Inl e \<Rightarrow> Inl e
      | Inr pl \<Rightarrow>
          (case nodeAt fs pl of
             None \<Rightarrow> Inl FileNotFoundError
           | Some Directory \<Rightarrow> Inl IsADirectoryError
           | Some Denied \<Rightarrow> Inl PermissionError
           | Some (Regular content) \<Rightarrow> Inr content
           | Some (Special content) \<Rightarrow> Inr content))"

text \<open>
  \<open>open(p, 'wb')\<close>: the file is created or truncated. A path that ends in a slash is
  refused as a directory once the walk has reached its last name. A special node is
  opened as it is, and what is written to it leaves the file system unchanged.
\<close>

definition openWrite :: "fs \<Rightarrow> string \<Rightarrow> exn + fs" where
  "openWrite fs p =
     (if p = [] then Inl FileNotFoundError
      else if CHR 0x00 \<in> set p then Inl ValueError
      else if last p = CHR ''/'' then
        (case walk fs (startPlace p)
                (rev (dropWhile (\<lambda>c. c = []) (rev (splitOn (CHR ''/'') p)))) of
           Inl e \<Rightarrow> Inl e
         | Inr pl \<Rightarrow> Inl IsADirectoryError)
      else
        (case resolve fs p of
           Inl e \<Rightarrow> Inl e
         | Inr pl \<Rightarrow>
             (case nodeAt fs pl of
                Some Directory \<Rightarrow> Inl IsADirectoryError
              | Some Denied \<Rightarrow> Inl PermissionError
              | Some (Special content) \<Rightarrow> Inr fs
              | Some (Regular content) \<Rightarrow> Inr (fs(keyOf pl \<mapsto> Regular []))
              | None \<Rightarrow> Inr (fs(keyOf pl \<mapsto> Regular [])))))"

text \<open>\<open>f.write(chunk)\<close> on the file opened at \<open>p\<close>.\<close>

definition writeChunk :: "fs \<Rightarrow> string \<Rightarrow> byte list \<Rightarrow> fs" where
  "writeChunk fs p chunk =
     (case resolve fs p of
        Inl e \<Rightarrow> fs
      | Inr pl \<Rightarrow>
          (case nodeAt fs pl of
             Some (Regular content) \<Rightarrow> fs(keyOf pl \<mapsto> Regular (content @ chunk))
           | _ \<Rightarrow> fs))"

text \<open>\<open>os.remove(p)\<close>.\<close>

definition removeFile :: "fs \<Rightarrow> string \<Rightarrow> exn + fs" where
  "removeFile fs p =
     (case resolve fs p of
        Inl e \<Rightarrow> Inl e
      | Inr pl \<Rightarrow>
          (case nodeAt fs pl of
             None \<Rightarrow> Inl FileNotFoundError
           | Some Directory \<Rightarrow> Inl IsADirectoryError
           | Some _ \<Rightarrow> Inr (fs(keyOf pl := None))))"

text \<open>The path names a file a writer has open: a regular file or a special node.\<close>

definition writable :: "fs \<Rightarrow> string \<Rightarrow> bool" where
  "writable fs p =
     (case lookup fs p of Some (Regular c) \<Rightarrow> True | Some (Special c) \<Rightarrow> True | _ \<Rightarrow> False)"

section \<open>Reading in chunks and the Content Verifier\<close>

text \<open>
  The loop \<open>while chunk := f.read(n)\<close> over a file holding \<open>content\<close>: the chunks read,
  in order. A read of nothing ends the loop.
\<close>

function readChunks :: "nat \<Rightarrow> byte list \<Rightarrow> byte list list" where
  "readChunks n content =
     (if take n content = [] then []
      else take n content # readChunks n (drop n content))"
  by pat_completeness auto
termination
  by (relation "measure (\<lambda>(n, content). length content)") auto

declare readChunks.simps [simp del]

text \<open>
  \<open>hashlib.sha256()\<close> as the library documents it: the object holds the message fed so
  far, \<open>update(a); update(b)\<close> is \<open>update(a + b)\<close>, and \<open>hexdigest()\<close> is the SHA-256
  function, a parameter \<open>H\<close> here, of that message.
\<close>

type_synonym sha256 = "byte list"

definition sha256_new :: sha256 where
  "sha256_new = []"

definition sha256_update :: "sha256 \<Rightarrow> byte list \<Rightarrow> sha256" where
  "sha256_update s chunk = s @ chunk"

definition hexdigest :: "(byte list \<Rightarrow> string) \<Rightarrow> sha256 \<Rightarrow> string" where
  "hexdigest H s = H s"

text \<open>
  \<open>calculateFileHash\<close>: \<open>Inr None\<close> is the value \<open>None\<close> returned on an \<open>IOError\<close>,
  \<open>Inl e\<close> an exception \<open>except IOError\<close> does not catch.
\<close>

definition calculateFileHash :: "(byte list \<Rightarrow> string) \<Rightarrow> fs \<Rightarrow> string \<Rightarrow> exn + string option" where
  "calculateFileHash H fs filePath =
     (case openRead fs filePath of
        Inl e \<Rightarrow> if isIOError e then Inr None else Inl e
      | Inr content \<Rightarrow>
          Inr (Some (hexdigest H (foldl sha256_update sha256_new (readChunks chunkSize content)))))"

section \<open>JSON values and the request message\<close>

text \<open>
  The Python values \<open>json.loads\<close> produces. An object is the list of its items, the
  keys distinct as in a \<open>dict\<close>. The program never looks into a number, so a float
  carries no value here.
\<close>

datatype json =
    JNull | JBool bool | JInt int | JFloat | JString string
  | JArray "json list" | JObject "(string \<times> json) list"

text \<open>\<open>isinstance(v, dict)\<close>.\<close>

definition isDict :: "json \<Rightarrow> bool" where
  "isDict v = (case v of JObject items \<Rightarrow> True | _ \<Rightarrow> False)"

text \<open>
  The two library conversions are parameters of the model: \<open>dumps\<close> stands for
  \<open>json.dumps(v).encode()\<close>, the bytes of the JSON text of a value, and \<open>loads\<close> for
  \<open>json.loads(data.decode())\<close> (and \<open>json.load\<close> of a text file), which returns the
  value or raises.
\<close>

type_synonym dumps = "json \<Rightarrow> byte list"

type_synonym loads = "byte list \<Rightarrow> exn + json"

text \<open>\<open>v[key]\<close> for a string key.\<close>

fun getitem :: "json \<Rightarrow> string \<Rightarrow> exn + json" where
  "getitem (JObject items) key =
     (case map_of items key of None \<Rightarrow> Inl KeyError | Some v \<Rightarrow> Inr v)"
| "getitem _ key = Inl TypeError"

text \<open>\<open>os.path.join(a, v)\<close> for a value out of a JSON message: only a string is a path.\<close>

fun joinValue :: "string \<Rightarrow> json \<Rightarrow> exn + string" where
  "joinValue a (JString b) = Inr (pathJoin a b)"
| "joinValue a _ = Inl TypeError"

text \<open>The dictionary \<open>downloadFileUi\<close> serialises (line 149).\<close>

definition clientRequest :: "string \<Rightarrow> json" where
  "clientRequest filename =
     JObject [(''request'', JString ''download''), (''filename'', JString filename)]"

section \<open>The Transfer Handler\<close>

text \<open>
  The accepted connection as the handler sees it: what \<open>recv\<close> will give (the bytes
  that have arrived, or an error), the call of \<open>sendall\<close> that fails if one does, the
  chunks passed to \<open>sendall\<close> so far, and how often \<open>close\<close> was called.
\<close>

record sock =
  inbound :: "exn + byte list"
  sendFails :: "nat option"
  sent :: "byte list list"
  closes :: nat

definition recv :: "nat \<Rightarrow> sock \<Rightarrow> exn + byte list" where
  "recv n s = (case inbound s of Inl e \<Rightarrow> Inl e | Inr d \<Rightarrow> Inr (take n d))"

definition sendall :: "byte list \<Rightarrow> sock \<Rightarrow> exn + sock" where
  "sendall chunk s =
     (if sendFails s = Some (length (sent s)) then Inl BrokenPipeError
      else Inr (s\<lparr>sent := sent s @ [chunk]\<rparr>))"

text \<open>The loop \<open>while chunk := f.read(chunkSize): clientSock.sendall(chunk)\<close>.\<close>

fun sendChunks :: "byte list list \<Rightarrow> sock \<Rightarrow> exn option \<times> sock" where
  "sendChunks [] s = (None, s)"
| "sendChunks (chunk # chunks) s =
     (case sendall chunk s of
        Inl e \<Rightarrow> (Some e, s)
      | Inr s' \<Rightarrow> sendChunks chunks s')"

text \<open>The body of the \<open>try\<close> of \<open>handleClient\<close>: the exception raised, if any.\<close>

definition handleRequest :: "loads \<Rightarrow> fs \<Rightarrow> sock \<Rightarrow> exn option \<times> sock" where
  "handleRequest loads fs s =
     (case recv 1024 s of
        Inl e \<Rightarrow> (Some e, s)
      | Inr data \<Rightarrow>
     (case loads data of
        Inl e \<Rightarrow> (Some e, s)
      | Inr request \<Rightarrow>
     (case getitem request ''request'' of
        Inl e \<Rightarrow> (Some e, s)
      | Inr kind \<Rightarrow>
          if kind = JString ''download'' then
            (case getitem request ''filename'' of
               Inl e \<Rightarrow> (Some e, s)
             | Inr filename \<Rightarrow>
            (case joinValue uploadsDir filename of
               Inl e \<Rightarrow> (Some e, s)
             | Inr filePath \<Rightarrow>
                 if pathExists fs filePath then
                   (case openRead fs filePath of
                      Inl e \<Rightarrow> (Some e, s)
                    | Inr content \<Rightarrow> sendChunks (readChunks chunkSize content) s)
                 else
                   (case sendall [] s of
                      Inl e \<Rightarrow> (Some e, s)
                    | Inr s' \<Rightarrow> (None, s'))))
          else (None, s))))"

text \<open>
  \<open>handleClient\<close>: \<open>except Exception\<close> catches whatever the body raised and prints it
  (the first component), and \<open>finally\<close> closes the socket.
\<close>

definition handleClient :: "loads \<Rightarrow> fs \<Rightarrow> sock \<Rightarrow> exn option \<times> sock" where
  "handleClient loads fs s =
     (case handleRequest loads fs s of
        (raised, s') \<Rightarrow> (raised, s'\<lparr>closes := closes s' + 1\<rparr>))"

text \<open>The bytes a connection has been sent.\<close>

definition wire :: "sock \<Rightarrow> byte list" where
  "wire s = concat (sent s)"

text \<open>A fresh connection on which the bytes \<open>data\<close> have arrived and sending works.\<close>

definition accepted :: "byte list \<Rightarrow> sock" where
  "accepted data = \<lparr>inbound = Inr data, sendFails = None, sent = [], closes = 0\<rparr>"

text \<open>\<open>listFiles\<close>, over the names \<open>os.listdir(uploadsDir)\<close> gives.\<close>

definition listFiles :: "fs \<Rightarrow> string list \<Rightarrow> string list" where
  "listFiles fs names = filter (\<lambda>f. isfile fs (pathJoin uploadsDir f)) names"

section \<open>The address book\<close>

text \<open>
  \<open>loadAddressBook\<close>: \<open>except (IOError, json.JSONDecodeError)\<close> gives the empty
  dictionary; any other exception leaves the function (\<open>Inl\<close>).
\<close>

definition loadAddressBook :: "loads \<Rightarrow> fs \<Rightarrow> exn + json" where
  "loadAddressBook loads fs =
     (case openRead fs addressBookFile of
        Inl e \<Rightarrow> if isIOError e \<or> e = JSONDecodeError then Inr (JObject []) else Inl e
      | Inr content \<Rightarrow>
          (case loads content of
             Inl e \<Rightarrow> if isIOError e \<or> e = JSONDecodeError then Inr (JObject []) else Inl e
           | Inr book \<Rightarrow> Inr book))"

section \<open>The Fetch Client\<close>

text \<open>\<open>needle in s\<close> for two strings.\<close>

definition containsStr :: "string \<Rightarrow> string \<Rightarrow> bool" where
  "containsStr s needle =
     list_ex (\<lambda>i. take (length needle) (drop i s) = needle) [0..<Suc (length s)]"

text \<open>
  Lines 136 to 138: \<open>if peer in addressBook: peer = addressBook[peer]\<close>, for whatever
  value \<open>loadAddressBook\<close> returned. The lines stand before the \<open>try\<close>, so what they
  raise leaves \<open>downloadFileUi\<close>.
\<close>

definition resolvePeer :: "json \<Rightarrow> string \<Rightarrow> exn + json" where
  "resolvePeer addressBook peer =
     (case addressBook of
        JObject items \<Rightarrow>
          (case map_of items peer of Some v \<Rightarrow> Inr v | None \<Rightarrow> Inr (JString peer))
      | JArray xs \<Rightarrow> if JString peer \<in> set xs then Inl TypeError else Inr (JString peer)
      | JString s \<Rightarrow> if containsStr s peer then Inl TypeError else Inr (JString peer)
      | _ \<Rightarrow> Inl TypeError)"

text \<open>
  \<open>int(s)\<close> for a string: white space around, a sign, decimal digits, single
  underscores between digits, and no more than 4300 digits.
\<close>

definition isSpace :: "char \<Rightarrow> bool" where
  "isSpace c = (of_char c \<in> {9, 10, 11, 12, 13, 32, 133, 160 :: nat})"

definition isDigit :: "char \<Rightarrow> bool" where
  "isDigit c = (48 \<le> (of_char c :: nat) \<and> (of_char c :: nat) \<le> 57)"

fun digits :: "bool \<Rightarrow> int \<Rightarrow> string \<Rightarrow> exn + int" where
  "digits afterDigit acc [] = (if afterDigit then Inr acc else Inl ValueError)"
| "digits afterDigit acc (c # cs) =
     (if isDigit c then digits True (acc * 10 + (of_char c - 48)) cs
      else if c = CHR ''_'' \<and> afterDigit then digits False acc cs
      else Inl ValueError)"

definition pyInt :: "string \<Rightarrow> exn + int" where
  "pyInt s =
     (let t = rev (dropWhile isSpace (rev (dropWhile isSpace s)))
      in case t of
           [] \<Rightarrow> Inl ValueError
         | c # cs \<Rightarrow>
             if 4300 < length (filter isDigit t) then Inl ValueError
             else if c = CHR ''-'' then map_sum id uminus (digits False 0 cs)
             else if c = CHR ''+'' then digits False 0 cs
             else digits False 0 t)"

text \<open>
  \<open>ipAddress, port = peer.split(":")\<close> and \<open>port = int(port)\<close>. The peer may be any
  value an address book held; only a string has \<open>split\<close>.
\<close>

definition parsePeer :: "json \<Rightarrow> exn + string \<times> int" where
  "parsePeer peer =
     (case peer of
        JString s \<Rightarrow>
          (case splitOn (CHR '':'') s of
             [ipAddress, port] \<Rightarrow>
               (case pyInt port of Inl e \<Rightarrow> Inl e | Inr n \<Rightarrow> Inr (ipAddress, n))
           | _ \<Rightarrow> Inl ValueError)
      | _ \<Rightarrow> Inl AttributeError)"

text \<open>
  The network as the client sees it. For a host and port: the error converting the
  host name raises, if any (a \<open>TypeError\<close> for a name with a NUL character or one that
  cannot be encoded); the error looking the host up raises, if any (a \<open>gaierror\<close>);
  the error the connection attempt meets, if any. What the peer
  then does depends on the request bytes it is sent: \<open>sendall\<close> fails or not, and the
  successive calls of \<open>recv(chunkSize)\<close> return the listed results, after which the
  peer has closed and \<open>recv\<close> returns \<open>b''\<close>.
\<close>

record reply =
  sendError :: "exn option"
  incoming :: "(exn + byte list) list"

record peer =
  hostError :: "exn option"
  lookupError :: "exn option"
  refused :: "exn option"
  respond :: "byte list \<Rightarrow> reply"

type_synonym network = "string \<Rightarrow> int \<Rightarrow> peer"

text \<open>
  \<open>sock.connect((ipAddress, port))\<close>: the host name is converted, the port is read as
  a C integer, the host is looked up, the port is checked against 0 to 65535, and
  then the connection is made.
\<close>

definition connect :: "network \<Rightarrow> string \<Rightarrow> int \<Rightarrow> exn + peer" where
  "connect net ipAddress port =
     (case hostError (net ipAddress port) of
        Some e \<Rightarrow> Inl e
      | None \<Rightarrow>
          if port < - 2147483648 \<or> 2147483647 < port then Inl OverflowError
          else (case lookupError (net ipAddress port) of
            Some e \<Rightarrow> Inl e
          | None \<Rightarrow>
              if port < 0 \<or> 65535 < port then Inl OverflowError
              else (case refused (net ipAddress port) of
                      Some e \<Rightarrow> Inl e
                    | None \<Rightarrow> Inr (net ipAddress port))))"

text \<open>
  The loop \<open>while chunk := sock.recv(chunkSize): f.write(chunk)\<close> on the file opened
  at \<open>filePath\<close>: the exception raised, if any, and the file system after the writes.
\<close>

fun recvLoop :: "(exn + byte list) list \<Rightarrow> string \<Rightarrow> fs \<Rightarrow> exn option \<times> fs" where
  "recvLoop [] filePath fs = (None, fs)"
| "recvLoop (Inl e # rest) filePath fs = (Some e, fs)"
| "recvLoop (Inr chunk # rest) filePath fs =
     (if chunk = [] then (None, fs)
      else recvLoop rest filePath (writeChunk fs filePath chunk))"

text \<open>
  What the loop hands to \<open>f.write\<close> in all, and the exception that ends it, if one
  does.
\<close>

fun received :: "(exn + byte list) list \<Rightarrow> byte list" where
  "received [] = []"
| "received (Inl e # rest) = []"
| "received (Inr chunk # rest) = (if chunk = [] then [] else chunk @ received rest)"

fun interrupted :: "(exn + byte list) list \<Rightarrow> exn option" where
  "interrupted [] = None"
| "interrupted (Inl e # rest) = Some e"
| "interrupted (Inr chunk # rest) = (if chunk = [] then None else interrupted rest)"

text \<open>What \<open>downloadFileUi\<close> writes in row 6 of the screen.\<close>

datatype message = Verified | VerificationFailed | Failure exn

text \<open>Lines 160 to 167: the two digests, the comparison, the removal.\<close>

definition verifyDownload ::
  "(byte list \<Rightarrow> string) \<Rightarrow> fs \<Rightarrow> string \<Rightarrow> string \<Rightarrow> message list \<times> fs" where
  "verifyDownload H fs filename filePath =
     (case calculateFileHash H fs filePath of
        Inl e \<Rightarrow> ([Failure e], fs)
      | Inr downloadedFileHash \<Rightarrow>
     (case calculateFileHash H fs (pathJoin uploadsDir filename) of
        Inl e \<Rightarrow> ([Failure e], fs)
      | Inr originalFileHash \<Rightarrow>
          if downloadedFileHash = originalFileHash then ([Verified], fs)
          else (case removeFile fs filePath of
                  Inl e \<Rightarrow> ([VerificationFailed, Failure e], fs)
                | Inr fs' \<Rightarrow> ([VerificationFailed], fs'))))"

text \<open>
  Lines 143 to 154: the address is parsed, the connection made, the request sent and
  the local file opened. The result is the peer's reply and the file system with the
  file open, or the exception raised on the way.
\<close>

definition startTransfer :: "dumps \<Rightarrow> network \<Rightarrow> fs \<Rightarrow> json \<Rightarrow> string \<Rightarrow> exn + reply \<times> fs" where
  "startTransfer dumps net fs peer filename =
     (case parsePeer peer of
        Inl e \<Rightarrow> Inl e
      | Inr (ipAddress, port) \<Rightarrow>
     (case connect net ipAddress port of
        Inl e \<Rightarrow> Inl e
      | Inr p \<Rightarrow>
     (let r = respond p (dumps (clientRequest filename)) in
      case sendError r of
        Some e \<Rightarrow> Inl e
      | None \<Rightarrow>
     (case openWrite fs (pathJoin downloadsDir filename) of
        Inl e \<Rightarrow> Inl e
      | Inr opened \<Rightarrow> Inr (r, opened)))))"

text \<open>
  The \<open>try\<close> block of \<open>downloadFileUi\<close> (lines 142 to 170) for the peer value after
  the address-book lookup: the messages written and the client's file system afterwards.
\<close>

definition fetchFile ::
  "(byte list \<Rightarrow> string) \<Rightarrow> dumps \<Rightarrow> network \<Rightarrow> fs \<Rightarrow> json \<Rightarrow> string \<Rightarrow> message list \<times> fs" where
  "fetchFile H dumps net fs peer filename =
     (case parsePeer peer of
        Inl e \<Rightarrow> ([Failure e], fs)
      | Inr (ipAddress, port) \<Rightarrow>
     (case connect net ipAddress port of
        Inl e \<Rightarrow> ([Failure e], fs)
      | Inr p \<Rightarrow>
     (let r = respond p (dumps (clientRequest filename)) in
      case sendError r of
        Some e \<Rightarrow> ([Failure e], fs)
      | None \<Rightarrow>
     (let filePath = pathJoin downloadsDir filename in
      case openWrite fs filePath of
        Inl e \<Rightarrow> ([Failure e], fs)
      | Inr fs1 \<Rightarrow>
     (case recvLoop (incoming r) filePath fs1 of
        (Some e, fs2) \<Rightarrow> ([Failure e], fs2)
      | (None, fs2) \<Rightarrow> verifyDownload H fs2 filename filePath)))))"

text \<open>\<open>downloadFileUi\<close> for the peer and file name typed in.\<close>

definition downloadFileUi ::
  "(byte list \<Rightarrow> string) \<Rightarrow> dumps \<Rightarrow> loads \<Rightarrow> network \<Rightarrow> fs \<Rightarrow> string \<Rightarrow> string
     \<Rightarrow> exn + message list \<times> fs" where
  "downloadFileUi H dumps loads net fs peer filename =
     (case loadAddressBook loads fs of
        Inl e \<Rightarrow> Inl e
      | Inr addressBook \<Rightarrow>
          (case resolvePeer addressBook peer of
             Inl e \<Rightarrow> Inl e
           | Inr peer' \<Rightarrow> Inr (fetchFile H dumps net fs peer' filename)))"

text \<open>
  A peer that runs \<open>handleClient\<close> over the file system \<open>served\<close>: it accepts, reads the
  request sent, and the transport hands the bytes it wrote to the client's \<open>recv\<close>
  calls cut as \<open>sizes\<close> says, a list of piece lengths (a length of zero counts as one, and
  once the list is used up the pieces are \<open>chunkSize\<close> long).
\<close>

function pieces :: "nat list \<Rightarrow> byte list \<Rightarrow> byte list list" where
  "pieces sizes bytes =
     (if bytes = [] then []
      else let n = (case sizes of [] \<Rightarrow> chunkSize | k # _ \<Rightarrow> max 1 (min k chunkSize))
           in take n bytes # pieces (tl sizes) (drop n bytes))"
  by pat_completeness auto
termination
  by (relation "measure (\<lambda>(sizes, bytes). length bytes)")
     (auto simp: chunkSize_def split: list.splits)

declare pieces.simps [simp del]

definition handlerPeer :: "loads \<Rightarrow> fs \<Rightarrow> nat list \<Rightarrow> peer" where
  "handlerPeer loads served sizes =
     \<lparr>hostError = None, lookupError = None, refused = None,
      respond = (\<lambda>request.
        \<lparr>sendError = None,
         incoming = map Inr (pieces sizes (wire (snd (handleClient loads served (accepted request)))))\<rparr>)\<rparr>"

section \<open>Example data\<close>

text \<open>
  In the examples a stand-in takes the place of SHA-256; it tells messages of
  different lengths apart.
\<close>

definition lengthDigest :: "byte list \<Rightarrow> string" where
  "lengthDigest m = replicate (length m) (CHR ''f'')"

text \<open>A node that serves files, and a node that has only its two directories.\<close>

definition servedFs :: fs where
  "servedFs =
     [''Uploads'' \<mapsto> Directory, ''Downloads'' \<mapsto> Directory,
      ''Uploads/a.txt'' \<mapsto> Regular [1, 2, 3], ''Uploads/empty.txt'' \<mapsto> Regular [],
      ''Uploads/sub'' \<mapsto> Directory, ''Uploads/pipe'' \<mapsto> Special [7, 8]]"

definition bareFs :: fs where
  "bareFs = [''Uploads'' \<mapsto> Directory, ''Downloads'' \<mapsto> Directory]"

text \<open>
  A serving node with a file beside its \<open>Uploads\<close> directory, one in a directory
  below it and one in the directory \<open>/srv\<close>; a client node with a directory below
  \<open>Downloads\<close> and its own copy of the file below \<open>Uploads\<close>; and a client node
  with a directory \<open>/srv\<close>.
\<close>

definition siteFs :: fs where
  "siteFs =
     [''Uploads'' \<mapsto> Directory, ''Downloads'' \<mapsto> Directory, ''notes.txt'' \<mapsto> Regular [4, 5],
      ''Uploads/sub'' \<mapsto> Directory, ''Uploads/sub/b.txt'' \<mapsto> Regular [6],
      ''/srv'' \<mapsto> Directory, ''/srv/c.txt'' \<mapsto> Regular [9]]"

definition subFs :: fs where
  "subFs =
     [''Uploads'' \<mapsto> Directory, ''Downloads'' \<mapsto> Directory, ''Downloads/sub'' \<mapsto> Directory,
      ''Uploads/sub'' \<mapsto> Directory, ''Uploads/sub/b.txt'' \<mapsto> Regular [6]]"

definition srvFs :: fs where
  "srvFs = [''Uploads'' \<mapsto> Directory, ''Downloads'' \<mapsto> Directory, ''/srv'' \<mapsto> Directory]"

text \<open>The bytes of an ASCII text.\<close>

definition ascii :: "string \<Rightarrow> byte list" where
  "ascii s = map (\<lambda>c. of_nat (of_char c)) s"

text \<open>Whether bytes are well-formed UTF-8, which is when \<open>decode()\<close> succeeds.\<close>

fun utf8 :: "nat list \<Rightarrow> bool" where
  "utf8 [] = True"
| "utf8 (a # bs) =
     (if a < 128 then utf8 bs
      else if 194 \<le> a \<and> a \<le> 223 then
        (case bs of b # r \<Rightarrow> 128 \<le> b \<and> b \<le> 191 \<and> utf8 r | _ \<Rightarrow> False)
      else if 224 \<le> a \<and> a \<le> 239 then
        (case bs of
           b # c # r \<Rightarrow>
             (if a = 224 then 160 else 128) \<le> b \<and> b \<le> (if a = 237 then 159 else 191) \<and>
             128 \<le> c \<and> c \<le> 191 \<and> utf8 r
         | _ \<Rightarrow> False)
      else if 240 \<le> a \<and> a \<le> 244 then
        (case bs of
           b # c # d # r \<Rightarrow>
             (if a = 240 then 144 else 128) \<le> b \<and> b \<le> (if a = 244 then 143 else 191) \<and>
             128 \<le> c \<and> c \<le> 191 \<and> 128 \<le> d \<and> d \<le> 191 \<and> utf8 r
         | _ \<Rightarrow> False)
      else False)"

text \<open>
  A codec for the examples. \<open>sampleDumps\<close> writes an object of two string fields as
  \<open>json.dumps\<close> does when no character needs an escape. \<open>sampleLoads\<close> raises
  \<open>UnicodeDecodeError\<close> for bytes that are not UTF-8, reads such an object back, reads
  the empty array, and takes every other text as not JSON.
\<close>

definition sampleDumps :: dumps where
  \<open>sampleDumps v =
     (case v of
        JObject [(k1, JString v1), (k2, JString v2)] \<Rightarrow>
          ascii (''{"'' @ k1 @ ''": "'' @ v1 @ ''", "'' @ k2 @ ''": "'' @ v2 @ ''"}'')
      | _ \<Rightarrow> [])\<close>

definition plainText :: "string \<Rightarrow> bool" where
  "plainText s = list_all (\<lambda>c. 32 \<le> (of_char c :: nat) \<and> (of_char c :: nat) < 127 \<and> c \<noteq> CHR 0x5C) s"

definition sampleLoads :: loads where
  \<open>sampleLoads data =
     (if \<not> utf8 (map unat data) then Inl UnicodeDecodeError
      else let text = map (\<lambda>b. char_of (unat b)) data in
      if text = ''[]'' then Inr (JArray [])
      else (case splitOn (CHR 0x22) text of
              [a, k1, b, v1, c, k2, d, v2, e] \<Rightarrow>
                if a = ''{'' \<and> b = '': '' \<and> c = '', '' \<and> d = '': '' \<and> e = ''}'' \<and> k1 \<noteq> k2 \<and>
                   plainText k1 \<and> plainText v1 \<and> plainText k2 \<and> plainText v2
                then Inr (JObject [(k1, JString v1), (k2, JString v2)])
                else Inl JSONDecodeError
            | _ \<Rightarrow> Inl JSONDecodeError))\<close>

text \<open>
  Networks on which every address reaches a Handler, one that serves \<open>servedFs\<close> and
  one that serves \<open>siteFs\<close>; a network on which the peer sends two bytes and then
  resets the connection; and one on which every connection is refused.
\<close>

definition handlerNet :: network where
  "handlerNet = (\<lambda>ipAddress port. handlerPeer sampleLoads servedFs [2])"

definition siteNet :: network where
  "siteNet = (\<lambda>ipAddress port. handlerPeer sampleLoads siteFs [1])"

definition brokenNet :: network where
  "brokenNet = (\<lambda>ipAddress port.
     \<lparr>hostError = None, lookupError = None, refused = None,
      respond = (\<lambda>request.
        \<lparr>sendError = None, incoming = [Inr [1, 2], Inl ConnectionResetError]\<rparr>)\<rparr>)"

definition refusingNet :: network where
  "refusingNet = (\<lambda>ipAddress port.
     \<lparr>hostError = None, lookupError = None, refused = Some ConnectionRefusedError,
      respond = (\<lambda>request. \<lparr>sendError = None, incoming = []\<rparr>)\<rparr>)"

text \<open>
  Address-book files: a JSON array, a text that is not JSON, a JSON object, and bytes
  that are not UTF-8.
\<close>

definition listBookFs :: fs where
  "listBookFs = [''address_book.json'' \<mapsto> Regular (ascii ''[]'')]"

definition badBookFs :: fs where
  "badBookFs = [''address_book.json'' \<mapsto> Regular (ascii ''hello'')]"

definition binaryBookFs :: fs where
  "binaryBookFs = [''address_book.json'' \<mapsto> Regular [255, 254]]"

definition bookFs :: fs where
  \<open>bookFs = [''address_book.json'' \<mapsto>
     Regular (ascii ''{"alice": "10.0.0.2:5000", "bob": "10.0.0.3:5000"}'')]\<close>

section \<open>Lemmas on chunked reading\<close>

lemma readChunks_concat: "0 < n \<Longrightarrow> concat (readChunks n content) = content"
proof (induction n content rule: readChunks.induct)
  case (1 n content)
  show ?case
  proof (cases "take n content = []")
    case True
    with "1.prems" have "content = []" by (cases content) auto
    then show ?thesis by (subst readChunks.simps) simp
  next
    case False
    with "1.IH" "1.prems" have "concat (readChunks n (drop n content)) = drop n content"
      by simp
    with False show ?thesis
      by (subst readChunks.simps) simp
  qed
qed

lemma foldl_update: "foldl sha256_update s cs = s @ concat cs"
  by (induction cs arbitrary: s) (simp_all add: sha256_update_def)

lemma chunkSize_pos: "0 < chunkSize"
  by (simp add: chunkSize_def)

lemma readChunks_wire: "concat (readChunks chunkSize content) = content"
  by (simp add: readChunks_concat chunkSize_pos)

section \<open>Lemmas on paths and the file system\<close>

lemma walk_IOError: "walk fs pl cs = Inl e \<Longrightarrow> isIOError e"
  by (induction cs arbitrary: pl) (auto split: option.splits node.splits)

lemma resolve_error: "resolve fs p = Inl e \<Longrightarrow> isIOError e \<or> (e = ValueError \<and> CHR 0x00 \<in> set p)"
  by (auto simp: resolve_def dest: walk_IOError split: if_splits)

lemma resolve_NUL: "CHR 0x00 \<in> set p \<Longrightarrow> resolve fs p = Inl ValueError"
  by (auto simp: resolve_def)

lemma lookup_NUL: "CHR 0x00 \<in> set p \<Longrightarrow> lookup fs p = None"
  by (simp add: lookup_def resolve_NUL)

lemma openRead_NUL: "CHR 0x00 \<in> set p \<Longrightarrow> openRead fs p = Inl ValueError"
  by (simp add: openRead_def resolve_NUL)

lemma openRead_IOError: "CHR 0x00 \<notin> set p \<Longrightarrow> openRead fs p = Inl e \<Longrightarrow> isIOError e"
  by (auto simp: openRead_def dest: resolve_error split: sum.splits option.splits node.splits)

lemma openRead_lookup:
  "CHR 0x00 \<notin> set p \<Longrightarrow>
     (case openRead fs p of Inl e \<Rightarrow> None | Inr content \<Rightarrow> Some content) =
     (case lookup fs p of
        Some (Regular content) \<Rightarrow> Some content
      | Some (Special content) \<Rightarrow> Some content
      | _ \<Rightarrow> None)"
  by (auto simp: openRead_def lookup_def split: sum.splits option.splits node.splits)

lemma openRead_Regular: "lookup fs p = Some (Regular content) \<Longrightarrow> openRead fs p = Inr content"
  by (auto simp: openRead_def lookup_def split: sum.splits)

lemma openRead_Special: "lookup fs p = Some (Special content) \<Longrightarrow> openRead fs p = Inr content"
  by (auto simp: openRead_def lookup_def split: sum.splits)

lemma openRead_Directory: "lookup fs p = Some Directory \<Longrightarrow> openRead fs p = Inl IsADirectoryError"
  by (auto simp: openRead_def lookup_def split: sum.splits)

lemma openRead_Denied: "lookup fs p = Some Denied \<Longrightarrow> openRead fs p = Inl PermissionError"
  by (auto simp: openRead_def lookup_def split: sum.splits)

lemma openRead_content:
  "(case openRead fs p of Inr content \<Rightarrow> content | Inl e \<Rightarrow> []) =
   (case lookup fs p of
      Some (Regular content) \<Rightarrow> content
    | Some (Special content) \<Rightarrow> content
    | _ \<Rightarrow> [])"
  by (auto simp: openRead_def lookup_def split: sum.splits option.splits node.splits)

lemma openRead_missing: "lookup fs p = None \<Longrightarrow> \<exists>e. openRead fs p = Inl e"
  by (auto simp: openRead_def lookup_def split: sum.splits)

lemmas path_eval =
  lookup_def resolve_def startPlace_def nodeAt_def implicitPlace_def keyOf_def up_def
  pathJoin_def uploadsDir_def downloadsDir_def addressBookFile_def

lemmas fs_eval =
  openWrite_def openRead_def servedFs_def bareFs_def path_eval

lemma calculateFileHash_read:
  "openRead fs p = Inr content \<Longrightarrow> calculateFileHash H fs p = Inr (Some (H content))"
  by (simp add: calculateFileHash_def hexdigest_def foldl_update sha256_new_def readChunks_wire)

lemma calculateFileHash_unopened:
  "openRead fs p = Inl e \<Longrightarrow> isIOError e \<Longrightarrow> calculateFileHash H fs p = Inr None"
  by (simp add: calculateFileHash_def)

lemma calculateFileHash_value:
  "CHR 0x00 \<notin> set p \<Longrightarrow>
     calculateFileHash H fs p =
       Inr (case lookup fs p of
              Some (Regular content) \<Rightarrow> Some (H content)
            | Some (Special content) \<Rightarrow> Some (H content)
            | _ \<Rightarrow> None)"
proof (cases "openRead fs p")
  case (Inl e)
  assume n: "CHR 0x00 \<notin> set p"
  from n Inl have "isIOError e" by (rule openRead_IOError)
  with Inl have "calculateFileHash H fs p = Inr None" by (rule calculateFileHash_unopened)
  moreover from openRead_lookup [OF n, of fs] Inl
  have "(case lookup fs p of Some (Regular content) \<Rightarrow> Some (H content)
         | Some (Special content) \<Rightarrow> Some (H content) | _ \<Rightarrow> None) = None"
    by (auto split: option.splits node.splits)
  ultimately show ?thesis by simp
next
  case (Inr content)
  assume n: "CHR 0x00 \<notin> set p"
  from openRead_lookup [OF n, of fs] Inr
  have "(case lookup fs p of Some (Regular content) \<Rightarrow> Some (H content)
         | Some (Special content) \<Rightarrow> Some (H content) | _ \<Rightarrow> None) = Some (H content)"
    by (auto split: option.splits node.splits)
  with calculateFileHash_read [OF Inr, of H] show ?thesis by simp
qed

lemma calculateFileHash_NUL:
  "CHR 0x00 \<in> set p \<Longrightarrow> calculateFileHash H fs p = Inl ValueError"
  by (simp add: calculateFileHash_def openRead_NUL)

section \<open>The Content Verifier\<close>

text \<open>
  Claim C6, as amended. \<open>calculateFileHash\<close> returns \<open>None\<close> when opening the file fails
  with an \<open>IOError\<close>: the file is missing, a name on the way is not a directory, the path
  is a directory, or the file may not be read. For a file that exists and is empty it
  returns the digest of the empty message, a string, which is not \<open>None\<close>, so that the
  result tells a missing file from an empty one. For a path that \<open>open\<close> refuses with a
  \<open>ValueError\<close>, one with a NUL character, it raises that error and returns nothing.
\<close>

theorem calculateFileHash_sentinel:
  "(openRead fs filePath = Inl e \<and> isIOError e \<longrightarrow> calculateFileHash H fs filePath = Inr None) \<and>
   (CHR 0x00 \<notin> set filePath \<longrightarrow>
      calculateFileHash H fs filePath =
        Inr (case lookup fs filePath of
               Some (Regular content) \<Rightarrow> Some (H content)
             | Some (Special content) \<Rightarrow> Some (H content)
             | _ \<Rightarrow> None)) \<and>
   (lookup fs filePath = Some (Regular []) \<longrightarrow>
      calculateFileHash H fs filePath = Inr (Some (H [])) \<and>
      calculateFileHash H fs filePath \<noteq> Inr None) \<and>
   (CHR 0x00 \<in> set filePath \<longrightarrow> calculateFileHash H fs filePath = Inl ValueError)"
proof (intro conjI impI)
  assume "openRead fs filePath = Inl e \<and> isIOError e"
  then show "calculateFileHash H fs filePath = Inr None"
    by (simp add: calculateFileHash_unopened)
next
  assume "CHR 0x00 \<notin> set filePath"
  then show "calculateFileHash H fs filePath =
        Inr (case lookup fs filePath of
               Some (Regular content) \<Rightarrow> Some (H content)
             | Some (Special content) \<Rightarrow> Some (H content)
             | _ \<Rightarrow> None)"
    by (rule calculateFileHash_value)
next
  assume "lookup fs filePath = Some (Regular [])"
  then have "openRead fs filePath = Inr []"
    by (rule openRead_Regular)
  then show "calculateFileHash H fs filePath = Inr (Some (H []))"
    by (rule calculateFileHash_read)
  then show "calculateFileHash H fs filePath \<noteq> Inr None"
    by simp
next
  assume "CHR 0x00 \<in> set filePath"
  then show "calculateFileHash H fs filePath = Inl ValueError"
    by (rule calculateFileHash_NUL)
qed

theorem calculateFileHash_sentinel_witness:
  "calculateFileHash lengthDigest servedFs ''Uploads/sub'' = Inr None \<and>
   calculateFileHash lengthDigest servedFs ''Uploads/missing.txt'' = Inr None \<and>
   calculateFileHash lengthDigest servedFs ''Uploads/a.txt/'' = Inr None \<and>
   calculateFileHash lengthDigest servedFs ''Uploads/nodir/../empty.txt'' = Inr None \<and>
   lookup servedFs ''Uploads/empty.txt'' = Some (Regular []) \<and>
   calculateFileHash lengthDigest servedFs ''Uploads/empty.txt'' = Inr (Some []) \<and>
   calculateFileHash lengthDigest servedFs ''Uploads/empty.txt'' \<noteq> Inr None \<and>
   calculateFileHash lengthDigest servedFs [CHR ''a'', CHR 0x00] = Inl ValueError"
proof -
  have d: "openRead servedFs ''Uploads/sub'' = Inl IsADirectoryError"
    by (simp add: fs_eval)
  have m: "lookup servedFs ''Uploads/missing.txt'' = None"
    by (simp add: fs_eval)
  have t: "openRead servedFs ''Uploads/a.txt/'' = Inl NotADirectoryError"
    by (simp add: fs_eval)
  have n: "lookup servedFs ''Uploads/nodir/../empty.txt'' = None"
    by (simp add: fs_eval)
  have e: "lookup servedFs ''Uploads/empty.txt'' = Some (Regular [])"
    by (simp add: fs_eval)
  have z: "CHR 0x00 \<in> set [CHR ''a'', CHR 0x00]"
    by simp
  from d calculateFileHash_sentinel [of servedFs "''Uploads/sub''" IsADirectoryError lengthDigest]
  have 1: "calculateFileHash lengthDigest servedFs ''Uploads/sub'' = Inr None"
    by simp
  from m calculateFileHash_sentinel [of servedFs "''Uploads/missing.txt''" OSError lengthDigest]
  have 2: "calculateFileHash lengthDigest servedFs ''Uploads/missing.txt'' = Inr None"
    by simp
  from t calculateFileHash_sentinel [of servedFs "''Uploads/a.txt/''" NotADirectoryError lengthDigest]
  have 3: "calculateFileHash lengthDigest servedFs ''Uploads/a.txt/'' = Inr None"
    by simp
  from n calculateFileHash_sentinel [of servedFs "''Uploads/nodir/../empty.txt''" OSError lengthDigest]
  have 4: "calculateFileHash lengthDigest servedFs ''Uploads/nodir/../empty.txt'' = Inr None"
    by simp
  from e calculateFileHash_sentinel [of servedFs "''Uploads/empty.txt''" OSError lengthDigest]
  have 5: "calculateFileHash lengthDigest servedFs ''Uploads/empty.txt'' = Inr (Some [])"
    by (simp add: lengthDigest_def)
  from z calculateFileHash_sentinel [of servedFs "[CHR ''a'', CHR 0x00]" OSError lengthDigest]
  have 6: "calculateFileHash lengthDigest servedFs [CHR ''a'', CHR 0x00] = Inl ValueError"
    by blast
  from 1 2 3 4 5 6 e show ?thesis by simp
qed

theorem unopenable_path_raises_counterexample:
  "openRead servedFs [CHR ''a'', CHR 0x00] = Inl ValueError \<and>
   \<not> pathExists servedFs [CHR ''a'', CHR 0x00] \<and>
   calculateFileHash lengthDigest servedFs [CHR ''a'', CHR 0x00] = Inl ValueError \<and>
   calculateFileHash lengthDigest servedFs [CHR ''a'', CHR 0x00] \<noteq> Inr None"
  by (simp add: calculateFileHash_NUL openRead_NUL pathExists_def lookup_NUL)

text \<open>
  Claim C7. \<open>H\<close> is SHA-256 as a function of a whole message, the digest computed in
  one pass. For every file that can be read, the digest \<open>calculateFileHash\<close> computes by
  feeding the accumulator the chunks it reads is \<open>H\<close> of the file's whole content; and
  feeding the accumulator any other sequence of chunks that concatenate to the content
  gives the same digest: the result depends on the content only, not on the chunking.
\<close>

theorem calculateFileHash_chunking:
  "openRead fs filePath = Inr content \<Longrightarrow>
     calculateFileHash H fs filePath = Inr (Some (H content)) \<and>
     (\<forall>n. 0 < n \<longrightarrow>
        hexdigest H (foldl sha256_update sha256_new (readChunks n content)) = H content) \<and>
     (\<forall>chunks. concat chunks = content \<longrightarrow>
        hexdigest H (foldl sha256_update sha256_new chunks) = H content)"
  by (simp add: calculateFileHash_read hexdigest_def foldl_update sha256_new_def
      readChunks_concat)

theorem calculateFileHash_chunking_witness:
  "openRead servedFs ''Uploads/a.txt'' = Inr [1, 2, 3] \<and>
   calculateFileHash lengthDigest servedFs ''Uploads/a.txt'' = Inr (Some (lengthDigest [1, 2, 3])) \<and>
   hexdigest lengthDigest (foldl sha256_update sha256_new (readChunks 2 [1, 2, 3])) =
     lengthDigest [1, 2, 3] \<and>
   concat [[1], [2, 3]] = [1, 2, 3 :: byte] \<and>
   hexdigest lengthDigest (foldl sha256_update sha256_new [[1], [2, 3]]) = lengthDigest [1, 2, 3]"
proof -
  have r: "openRead servedFs ''Uploads/a.txt'' = Inr [1, 2, 3]"
    by (simp add: fs_eval)
  have c: "concat [[1], [2, 3]] = [1, 2, 3 :: byte]"
    by simp
  have p: "(0::nat) < 2"
    by simp
  from calculateFileHash_chunking [OF r, of lengthDigest] r c p show ?thesis
    by blast
qed

section \<open>The Transfer Handler: what is sent, and when\<close>

lemma sendChunks_ok: "sendFails s = None \<Longrightarrow> sendChunks cs s = (None, s\<lparr>sent := sent s @ cs\<rparr>)"
  by (induction cs arbitrary: s) (simp_all add: sendall_def)

lemma sendChunks_closes: "closes (snd (sendChunks cs s)) = closes s"
  by (induction cs arbitrary: s) (auto simp: sendall_def)

lemma handleRequest_closes: "closes (snd (handleRequest loads fs s)) = closes s"
  by (auto simp: handleRequest_def sendall_def sendChunks_closes split: sum.splits)

lemma handleClient_closes: "closes (snd (handleClient loads fs s)) = closes s + 1"
  using handleRequest_closes [of loads fs s]
  by (cases "handleRequest loads fs s") (simp add: handleClient_def)

lemma handleRequest_download:
  assumes "recv 1024 s = Inr data" and "loads data = Inr request"
    and "getitem request ''request'' = Inr (JString ''download'')"
    and "getitem request ''filename'' = Inr (JString filename)"
    and "sendFails s = None"
  shows "handleRequest loads fs s =
     (case lookup fs (pathJoin uploadsDir filename) of
        None \<Rightarrow> (None, s\<lparr>sent := sent s @ [[]]\<rparr>)
      | Some Directory \<Rightarrow> (Some IsADirectoryError, s)
      | Some Denied \<Rightarrow> (Some PermissionError, s)
      | Some (Regular content) \<Rightarrow> (None, s\<lparr>sent := sent s @ readChunks chunkSize content\<rparr>)
      | Some (Special content) \<Rightarrow> (None, s\<lparr>sent := sent s @ readChunks chunkSize content\<rparr>))"
  using assms
  by (auto simp: handleRequest_def pathExists_def sendall_def sendChunks_ok
      openRead_Regular openRead_Special openRead_Directory openRead_Denied
      split: option.splits node.splits)

lemma handleClient_wire:
  assumes "loads (take 1024 data) = Inr request"
    and "getitem request ''request'' = Inr (JString ''download'')"
    and "getitem request ''filename'' = Inr (JString filename)"
  shows "wire (snd (handleClient loads fs (accepted data))) =
     (case lookup fs (pathJoin uploadsDir filename) of
        Some (Regular content) \<Rightarrow> content
      | Some (Special content) \<Rightarrow> content
      | _ \<Rightarrow> [])"
proof -
  have r: "recv 1024 (accepted data) = Inr (take 1024 data)"
    by (simp add: recv_def accepted_def)
  have f: "sendFails (accepted data) = None"
    by (simp add: accepted_def)
  have "handleRequest loads fs (accepted data) =
     (case lookup fs (pathJoin uploadsDir filename) of
        None \<Rightarrow> (None, (accepted data)\<lparr>sent := sent (accepted data) @ [[]]\<rparr>)
      | Some Directory \<Rightarrow> (Some IsADirectoryError, accepted data)
      | Some Denied \<Rightarrow> (Some PermissionError, accepted data)
      | Some (Regular content) \<Rightarrow>
          (None, (accepted data)\<lparr>sent := sent (accepted data) @ readChunks chunkSize content\<rparr>)
      | Some (Special content) \<Rightarrow>
          (None, (accepted data)\<lparr>sent := sent (accepted data) @ readChunks chunkSize content\<rparr>))"
    using r assms f by (rule handleRequest_download)
  then show ?thesis
    by (simp add: handleClient_def wire_def accepted_def readChunks_wire
        split: option.splits node.splits)
qed

lemma handleRequest_unparsed:
  "recv 1024 s = Inr data \<Longrightarrow> loads data = Inl e \<Longrightarrow> handleRequest loads fs s = (Some e, s)"
  by (simp add: handleRequest_def)

lemma handleRequest_other:
  "recv 1024 s = Inr data \<Longrightarrow> loads data = Inr request \<Longrightarrow>
   getitem request ''request'' \<noteq> Inr (JString ''download'') \<Longrightarrow>
   snd (handleRequest loads fs s) = s"
  by (auto simp: handleRequest_def split: sum.splits)

lemma handleClient_download:
  assumes "loads (take 1024 data) = Inr request"
    and "getitem request ''request'' = Inr (JString ''download'')"
    and "getitem request ''filename'' = Inr (JString filename)"
  shows "handleClient loads fs (accepted data) =
     (case lookup fs (pathJoin uploadsDir filename) of
        None \<Rightarrow> (None, (accepted data)\<lparr>sent := [[]], closes := 1\<rparr>)
      | Some Directory \<Rightarrow> (Some IsADirectoryError, (accepted data)\<lparr>closes := 1\<rparr>)
      | Some Denied \<Rightarrow> (Some PermissionError, (accepted data)\<lparr>closes := 1\<rparr>)
      | Some (Regular content) \<Rightarrow>
          (None, (accepted data)\<lparr>sent := readChunks chunkSize content, closes := 1\<rparr>)
      | Some (Special content) \<Rightarrow>
          (None, (accepted data)\<lparr>sent := readChunks chunkSize content, closes := 1\<rparr>))"
proof -
  have r: "recv 1024 (accepted data) = Inr (take 1024 data)"
    by (simp add: recv_def accepted_def)
  have f: "sendFails (accepted data) = None"
    by (simp add: accepted_def)
  have "handleRequest loads fs (accepted data) =
     (case lookup fs (pathJoin uploadsDir filename) of
        None \<Rightarrow> (None, (accepted data)\<lparr>sent := sent (accepted data) @ [[]]\<rparr>)
      | Some Directory \<Rightarrow> (Some IsADirectoryError, accepted data)
      | Some Denied \<Rightarrow> (Some PermissionError, accepted data)
      | Some (Regular content) \<Rightarrow>
          (None, (accepted data)\<lparr>sent := sent (accepted data) @ readChunks chunkSize content\<rparr>)
      | Some (Special content) \<Rightarrow>
          (None, (accepted data)\<lparr>sent := sent (accepted data) @ readChunks chunkSize content\<rparr>))"
    using r assms f by (rule handleRequest_download)
  then show ?thesis
    by (simp add: handleClient_def accepted_def split: option.splits node.splits)
qed

lemma sample_codec_a:
  "sampleLoads (take 1024 (sampleDumps (clientRequest ''a.txt''))) = Inr (clientRequest ''a.txt'')"
  by code_simp

lemma sample_codec_pipe:
  "sampleLoads (take 1024 (sampleDumps (clientRequest ''pipe''))) = Inr (clientRequest ''pipe'')"
  by code_simp

lemma sample_codec_sub:
  "sampleLoads (take 1024 (sampleDumps (clientRequest ''sub''))) = Inr (clientRequest ''sub'')"
  by code_simp

lemma sample_codec_slash:
  "sampleLoads (take 1024 (sampleDumps (clientRequest ''a.txt/''))) = Inr (clientRequest ''a.txt/'')"
  by code_simp

lemma sample_codec_detour:
  "sampleLoads (take 1024 (sampleDumps (clientRequest ''nodir/../a.txt''))) =
     Inr (clientRequest ''nodir/../a.txt'')"
  by code_simp

lemma getitem_clientRequest:
  "getitem (clientRequest filename) ''request'' = Inr (JString ''download'')"
  "getitem (clientRequest filename) ''filename'' = Inr (JString filename)"
  by (simp_all add: clientRequest_def)

text \<open>
  Claim C8, as amended. For a download request the Handler sends exactly the bytes that
  opening and reading the path gives: the content of a regular file, and also the bytes
  of a readable node that is not a regular file, since the code tests \<open>os.path.exists\<close>
  only. For a directory, and for a path that does not exist or may not be read, it sends
  no content bytes.
\<close>

theorem handleClient_streams_openable:
  assumes "loads (take 1024 data) = Inr request"
    and "getitem request ''request'' = Inr (JString ''download'')"
    and "getitem request ''filename'' = Inr (JString filename)"
  shows "wire (snd (handleClient loads fs (accepted data))) =
           (case openRead fs (pathJoin uploadsDir filename) of
              Inr content \<Rightarrow> content
            | Inl e \<Rightarrow> []) \<and>
         (lookup fs (pathJoin uploadsDir filename) = Some Directory \<longrightarrow>
            handleClient loads fs (accepted data) =
              (Some IsADirectoryError, (accepted data)\<lparr>closes := 1\<rparr>) \<and>
            sent (snd (handleClient loads fs (accepted data))) = [])"
  using handleClient_download [where loads = loads and data = data and fs = fs, OF assms]
  by (simp add: wire_def openRead_content readChunks_wire accepted_def
      split: option.splits node.splits)

theorem handleClient_streams_openable_witness:
  "wire (snd (handleClient sampleLoads servedFs (accepted (sampleDumps (clientRequest ''a.txt''))))) =
     [1, 2, 3] \<and>
   lookup servedFs (pathJoin uploadsDir ''sub'') = Some Directory \<and>
   sent (snd (handleClient sampleLoads servedFs (accepted (sampleDumps (clientRequest ''sub''))))) = [] \<and>
   openRead servedFs (pathJoin uploadsDir ''a.txt/'') = Inl NotADirectoryError \<and>
   wire (snd (handleClient sampleLoads servedFs (accepted (sampleDumps (clientRequest ''a.txt/''))))) =
     [] \<and>
   openRead servedFs (pathJoin uploadsDir ''nodir/../a.txt'') = Inl FileNotFoundError \<and>
   wire (snd (handleClient sampleLoads servedFs
     (accepted (sampleDumps (clientRequest ''nodir/../a.txt''))))) = []"
proof -
  have a: "openRead servedFs (pathJoin uploadsDir ''a.txt'') = Inr [1, 2, 3]"
    by (simp add: fs_eval)
  have d: "lookup servedFs (pathJoin uploadsDir ''sub'') = Some Directory"
    by (simp add: fs_eval)
  have t: "openRead servedFs (pathJoin uploadsDir ''a.txt/'') = Inl NotADirectoryError"
    by (simp add: fs_eval)
  have n: "openRead servedFs (pathJoin uploadsDir ''nodir/../a.txt'') = Inl FileNotFoundError"
    by (simp add: fs_eval)
  from a
    handleClient_streams_openable [where loads = sampleLoads and fs = servedFs
      and data = "sampleDumps (clientRequest ''a.txt'')", OF sample_codec_a getitem_clientRequest]
  have 1: "wire (snd (handleClient sampleLoads servedFs
      (accepted (sampleDumps (clientRequest ''a.txt''))))) = [1, 2, 3]"
    by simp
  from d
    handleClient_streams_openable [where loads = sampleLoads and fs = servedFs
      and data = "sampleDumps (clientRequest ''sub'')", OF sample_codec_sub getitem_clientRequest]
  have 2: "sent (snd (handleClient sampleLoads servedFs
      (accepted (sampleDumps (clientRequest ''sub''))))) = []"
    by blast
  from t
    handleClient_streams_openable [where loads = sampleLoads and fs = servedFs
      and data = "sampleDumps (clientRequest ''a.txt/'')", OF sample_codec_slash
      getitem_clientRequest]
  have 3: "wire (snd (handleClient sampleLoads servedFs
      (accepted (sampleDumps (clientRequest ''a.txt/''))))) = []"
    by simp
  from n
    handleClient_streams_openable [where loads = sampleLoads and fs = servedFs
      and data = "sampleDumps (clientRequest ''nodir/../a.txt'')", OF sample_codec_detour
      getitem_clientRequest]
  have 4: "wire (snd (handleClient sampleLoads servedFs
      (accepted (sampleDumps (clientRequest ''nodir/../a.txt''))))) = []"
    by simp
  from 1 2 3 4 d t n show ?thesis by simp
qed

theorem special_node_streamed_counterexample:
  "pathExists servedFs (pathJoin uploadsDir ''pipe'') \<and>
   \<not> isfile servedFs (pathJoin uploadsDir ''pipe'') \<and>
   wire (snd (handleClient sampleLoads servedFs (accepted (sampleDumps (clientRequest ''pipe''))))) =
     [7, 8]"
proof -
  have p: "lookup servedFs (pathJoin uploadsDir ''pipe'') = Some (Special [7, 8])"
    by (simp add: fs_eval)
  from p handleClient_download [where loads = sampleLoads and fs = servedFs
      and data = "sampleDumps (clientRequest ''pipe'')", OF sample_codec_pipe getitem_clientRequest]
  show ?thesis
    by (simp add: wire_def pathExists_def isfile_def readChunks_wire)
qed

lemma sample_other_kind:
  \<open>sampleLoads (ascii ''{"request": "upload", "filename": "a.txt"}'') =
     Inr (JObject [(''request'', JString ''upload''), (''filename'', JString ''a.txt'')])\<close>
  by code_simp

lemma sample_not_json: "sampleLoads (ascii ''hello'') = Inl JSONDecodeError"
  by code_simp

lemma sample_operation_field:
  \<open>sampleLoads (ascii ''{"operation": "download", "filename": "a.txt"}'') =
     Inr (JObject [(''operation'', JString ''download''), (''filename'', JString ''a.txt'')])\<close>
  by code_simp

lemma recv_accepted_short:
  "length data \<le> 1024 \<Longrightarrow> recv 1024 (accepted data) = Inr data"
  by (simp add: recv_def accepted_def)

text \<open>
  Claim C5. Whatever happens while a connection is handled, \<open>handleClient\<close> returns with
  the socket closed once, the exception it caught printed and not raised further. When
  the payload does not parse, and when it parses to a request whose kind is not
  \<open>"download"\<close>, no byte has been sent.
\<close>

theorem handleClient_fail_closed:
  "closes (snd (handleClient loads fs s)) = closes s + 1 \<and>
   (recv 1024 s = Inr data \<and> loads data = Inl e \<longrightarrow>
      handleClient loads fs s = (Some e, s\<lparr>closes := closes s + 1\<rparr>)) \<and>
   (recv 1024 s = Inr data \<and> loads data = Inr request \<and>
    getitem request ''request'' \<noteq> Inr (JString ''download'') \<longrightarrow>
      sent (snd (handleClient loads fs s)) = sent s \<and>
      closes (snd (handleClient loads fs s)) = closes s + 1)"
proof (intro conjI impI)
  show "closes (snd (handleClient loads fs s)) = closes s + 1"
    by (rule handleClient_closes)
next
  assume "recv 1024 s = Inr data \<and> loads data = Inl e"
  then show "handleClient loads fs s = (Some e, s\<lparr>closes := closes s + 1\<rparr>)"
    by (simp add: handleClient_def handleRequest_unparsed)
next
  assume a: "recv 1024 s = Inr data \<and> loads data = Inr request \<and>
    getitem request ''request'' \<noteq> Inr (JString ''download'')"
  then have "snd (handleRequest loads fs s) = s"
    using handleRequest_other by blast
  then show "sent (snd (handleClient loads fs s)) = sent s"
    by (cases "handleRequest loads fs s") (simp add: handleClient_def)
  show "closes (snd (handleClient loads fs s)) = closes s + 1"
    by (rule handleClient_closes)
qed

theorem handleClient_fail_closed_witness:
  \<open>handleClient sampleLoads servedFs (accepted (ascii ''hello'')) =
     (Some JSONDecodeError, (accepted (ascii ''hello''))\<lparr>closes := 1\<rparr>) \<and>
   sent (snd (handleClient sampleLoads servedFs
     (accepted (ascii ''{"request": "upload", "filename": "a.txt"}'')))) = [] \<and>
   closes (snd (handleClient sampleLoads servedFs
     (accepted (ascii ''{"request": "upload", "filename": "a.txt"}'')))) = 1\<close>
proof -
  have r1: "recv 1024 (accepted (ascii ''hello'')) = Inr (ascii ''hello'')"
    by (rule recv_accepted_short) (simp add: ascii_def)
  have r2: \<open>recv 1024 (accepted (ascii ''{"request": "upload", "filename": "a.txt"}'')) =
      Inr (ascii ''{"request": "upload", "filename": "a.txt"}'')\<close>
    by (rule recv_accepted_short) (simp add: ascii_def)
  have k: "getitem (JObject [(''request'', JString ''upload''), (''filename'', JString ''a.txt'')])
      ''request'' \<noteq> Inr (JString ''download'')"
    by simp
  from r1 sample_not_json
    handleClient_fail_closed [of sampleLoads servedFs "accepted (ascii ''hello'')"
      "ascii ''hello''" JSONDecodeError JNull]
  have one: "handleClient sampleLoads servedFs (accepted (ascii ''hello'')) =
     (Some JSONDecodeError, (accepted (ascii ''hello''))\<lparr>closes := 1\<rparr>)"
    by (simp add: accepted_def)
  from r2 sample_other_kind k
    handleClient_fail_closed [of sampleLoads servedFs
      \<open>accepted (ascii ''{"request": "upload", "filename": "a.txt"}'')\<close>
      \<open>ascii ''{"request": "upload", "filename": "a.txt"}''\<close> JSONDecodeError
      "JObject [(''request'', JString ''upload''), (''filename'', JString ''a.txt'')]"]
  have two: \<open>sent (snd (handleClient sampleLoads servedFs
     (accepted (ascii ''{"request": "upload", "filename": "a.txt"}'')))) = [] \<and>
   closes (snd (handleClient sampleLoads servedFs
     (accepted (ascii ''{"request": "upload", "filename": "a.txt"}'')))) = 1\<close>
    by (simp add: accepted_def)
  from one two show ?thesis by simp
qed

text \<open>
  Claim C3, as amended. The request the Fetch Client sends is the JSON text of an
  object with a field named \<open>request\<close> whose value is \<open>"download"\<close> and a field named
  \<open>filename\<close>, a string; these are the two fields the Handler reads, and a message in
  which the field \<open>request\<close> does not hold \<open>"download"\<close> gets no byte in answer.
\<close>

theorem request_message_fields:
  "clientRequest filename =
     JObject [(''request'', JString ''download''), (''filename'', JString filename)] \<and>
   getitem (clientRequest filename) ''request'' = Inr (JString ''download'') \<and>
   getitem (clientRequest filename) ''filename'' = Inr (JString filename) \<and>
   (loads (take 1024 data) = Inr (clientRequest filename) \<longrightarrow>
      wire (snd (handleClient loads fs (accepted data))) =
        (case openRead fs (pathJoin uploadsDir filename) of
           Inr content \<Rightarrow> content
         | Inl e \<Rightarrow> [])) \<and>
   (loads (take 1024 data) = Inr request \<and>
    getitem request ''request'' \<noteq> Inr (JString ''download'') \<longrightarrow>
      sent (snd (handleClient loads fs (accepted data))) = [])"
proof (intro conjI impI)
  show "clientRequest filename =
     JObject [(''request'', JString ''download''), (''filename'', JString filename)]"
    by (simp add: clientRequest_def)
  show "getitem (clientRequest filename) ''request'' = Inr (JString ''download'')"
    by (rule getitem_clientRequest)
  show "getitem (clientRequest filename) ''filename'' = Inr (JString filename)"
    by (rule getitem_clientRequest)
next
  assume l: "loads (take 1024 data) = Inr (clientRequest filename)"
  show "wire (snd (handleClient loads fs (accepted data))) =
        (case openRead fs (pathJoin uploadsDir filename) of
           Inr content \<Rightarrow> content
         | Inl e \<Rightarrow> [])"
    using handleClient_download [where loads = loads and data = data and fs = fs,
        OF l getitem_clientRequest]
    by (simp add: wire_def openRead_content readChunks_wire accepted_def
        split: option.splits node.splits)
next
  assume a: "loads (take 1024 data) = Inr request \<and>
    getitem request ''request'' \<noteq> Inr (JString ''download'')"
  have "recv 1024 (accepted data) = Inr (take 1024 data)"
    by (simp add: recv_def accepted_def)
  with a have "snd (handleRequest loads fs (accepted data)) = accepted data"
    using handleRequest_other by blast
  then show "sent (snd (handleClient loads fs (accepted data))) = []"
    by (cases "handleRequest loads fs (accepted data)") (simp add: handleClient_def accepted_def)
qed

theorem request_message_fields_witness:
  \<open>wire (snd (handleClient sampleLoads servedFs
     (accepted (sampleDumps (clientRequest ''a.txt''))))) = [1, 2, 3] \<and>
   sent (snd (handleClient sampleLoads servedFs
     (accepted (ascii ''{"operation": "download", "filename": "a.txt"}'')))) = []\<close>
proof -
  have a: "openRead servedFs (pathJoin uploadsDir ''a.txt'') = Inr [1, 2, 3]"
    by (simp add: fs_eval)
  have t: \<open>take 1024 (ascii ''{"operation": "download", "filename": "a.txt"}'') =
      ascii ''{"operation": "download", "filename": "a.txt"}''\<close>
    by (simp add: ascii_def)
  have k: "getitem (JObject [(''operation'', JString ''download''), (''filename'', JString ''a.txt'')])
      ''request'' \<noteq> Inr (JString ''download'')"
    by simp
  note w1 = request_message_fields [of "''a.txt''" sampleLoads
      "sampleDumps (clientRequest ''a.txt'')" servedFs JNull]
  from w1 have "sampleLoads (take 1024 (sampleDumps (clientRequest ''a.txt''))) =
      Inr (clientRequest ''a.txt'') \<longrightarrow>
    wire (snd (handleClient sampleLoads servedFs
      (accepted (sampleDumps (clientRequest ''a.txt''))))) =
      (case openRead servedFs (pathJoin uploadsDir ''a.txt'') of
         Inr content \<Rightarrow> content | Inl e \<Rightarrow> [])"
    by blast
  with sample_codec_a a
  have one: "wire (snd (handleClient sampleLoads servedFs
     (accepted (sampleDumps (clientRequest ''a.txt''))))) = [1, 2, 3]"
    by simp
  note w2 = request_message_fields [of "''a.txt''" sampleLoads
      \<open>ascii ''{"operation": "download", "filename": "a.txt"}''\<close> servedFs
      "JObject [(''operation'', JString ''download''), (''filename'', JString ''a.txt'')]"]
  from w2 have \<open>sampleLoads (take 1024 (ascii ''{"operation": "download", "filename": "a.txt"}'')) =
      Inr (JObject [(''operation'', JString ''download''), (''filename'', JString ''a.txt'')]) \<and>
    getitem (JObject [(''operation'', JString ''download''), (''filename'', JString ''a.txt'')])
      ''request'' \<noteq> Inr (JString ''download'') \<longrightarrow>
    sent (snd (handleClient sampleLoads servedFs
     (accepted (ascii ''{"operation": "download", "filename": "a.txt"}'')))) = []\<close>
    by blast
  with t k sample_operation_field
  have two: \<open>sent (snd (handleClient sampleLoads servedFs
     (accepted (ascii ''{"operation": "download", "filename": "a.txt"}'')))) = []\<close>
    by simp
  from one two show ?thesis by simp
qed

theorem operation_field_counterexample:
  \<open>getitem (clientRequest ''a.txt'') ''operation'' = Inl KeyError \<and>
   lookup servedFs (pathJoin uploadsDir ''a.txt'') = Some (Regular [1, 2, 3]) \<and>
   handleClient sampleLoads servedFs
     (accepted (ascii ''{"operation": "download", "filename": "a.txt"}'')) =
     (Some KeyError,
      (accepted (ascii ''{"operation": "download", "filename": "a.txt"}''))\<lparr>closes := 1\<rparr>)\<close>
proof -
  have t: \<open>recv 1024 (accepted (ascii ''{"operation": "download", "filename": "a.txt"}'')) =
      Inr (ascii ''{"operation": "download", "filename": "a.txt"}'')\<close>
    by (rule recv_accepted_short) (simp add: ascii_def)
  have a: "lookup servedFs (pathJoin uploadsDir ''a.txt'') = Some (Regular [1, 2, 3])"
    by (simp add: fs_eval)
  have g: "getitem (clientRequest ''a.txt'') ''operation'' = Inl KeyError"
    by (simp add: clientRequest_def)
  have \<open>handleRequest sampleLoads servedFs
     (accepted (ascii ''{"operation": "download", "filename": "a.txt"}'')) =
     (Some KeyError, accepted (ascii ''{"operation": "download", "filename": "a.txt"}''))\<close>
    by (simp add: handleRequest_def t sample_operation_field)
  with a g show ?thesis
    by (simp add: handleClient_def accepted_def)
qed

section \<open>The file system under writes\<close>

text \<open>
  Creating, writing and removing files changes no directory, so every path resolves
  after such a step to the place it resolved to before.
\<close>

lemma nodeAt_agree:
  assumes "\<And>k. (fs' k = Some Directory) = (fs k = Some Directory)"
  shows "(nodeAt fs' pl = Some Directory) = (nodeAt fs pl = Some Directory)"
  using assms by (simp add: nodeAt_def)

lemma walk_agree:
  assumes a: "\<And>k. (fs' k = Some Directory) = (fs k = Some Directory)"
  shows "(walk fs' pl cs = Inr q) = (walk fs pl cs = Inr q)"
proof (induction cs arbitrary: pl)
  case Nil
  show ?case by simp
next
  case (Cons c cs)
  show ?case
  proof (cases "nodeAt fs pl = Some Directory")
    case True
    with nodeAt_agree [of fs' fs pl, OF a] have "nodeAt fs' pl = Some Directory"
      by simp
    with True Cons.IH show ?thesis
      by simp
  next
    case False
    with nodeAt_agree [of fs' fs pl, OF a] have f: "nodeAt fs' pl \<noteq> Some Directory"
      by simp
    from False have "walk fs pl (c # cs) \<noteq> Inr q"
      by (auto split: option.splits node.splits)
    moreover from f have "walk fs' pl (c # cs) \<noteq> Inr q"
      by (auto split: option.splits node.splits)
    ultimately show ?thesis
      by simp
  qed
qed

lemma resolve_agree:
  assumes "\<And>k. (fs' k = Some Directory) = (fs k = Some Directory)"
  shows "(resolve fs' p = Inr q) = (resolve fs p = Inr q)"
  using walk_agree [of fs' fs, OF assms] by (simp add: resolve_def)

lemma resolve_upd:
  "fs k \<noteq> Some Directory \<Longrightarrow> v \<noteq> Directory \<Longrightarrow>
     (resolve (fs(k \<mapsto> v)) p = Inr q) = (resolve fs p = Inr q)"
  by (rule resolve_agree) auto

lemma resolve_del:
  "fs k \<noteq> Some Directory \<Longrightarrow> (resolve (fs(k := None)) p = Inr q) = (resolve fs p = Inr q)"
  by (rule resolve_agree) auto

lemma lookup_Inr: "resolve fs p = Inr pl \<Longrightarrow> lookup fs p = nodeAt fs pl"
  by (simp add: lookup_def)

lemma lookup_Inl:
  assumes "\<And>pl. resolve fs p \<noteq> Inr pl"
  shows "lookup fs p = None"
proof (cases "resolve fs p")
  case (Inl e)
  then show ?thesis by (simp add: lookup_def)
next
  case (Inr pl)
  with assms [of pl] show ?thesis by simp
qed

lemma lookup_Some: "lookup fs p = Some n \<Longrightarrow> \<exists>pl. resolve fs p = Inr pl \<and> nodeAt fs pl = Some n"
  by (cases "resolve fs p") (simp_all add: lookup_def)

lemma lookup_upd:
  assumes "fs k \<noteq> Some Directory" and "v \<noteq> Directory"
  shows "lookup (fs(k \<mapsto> v)) q =
     (case resolve fs q of
        Inl e \<Rightarrow> None
      | Inr pl \<Rightarrow> if \<not> implicitPlace pl \<and> keyOf pl = k then Some v else nodeAt fs pl)"
proof (cases "resolve fs q")
  case (Inl e)
  then have "\<And>pl. resolve (fs(k \<mapsto> v)) q \<noteq> Inr pl"
    using resolve_upd [where fs = fs and k = k and v = v and p = q, OF assms] by simp
  then have "lookup (fs(k \<mapsto> v)) q = None"
    by (rule lookup_Inl)
  with Inl show ?thesis by simp
next
  case (Inr pl)
  then have "resolve (fs(k \<mapsto> v)) q = Inr pl"
    using resolve_upd [where fs = fs and k = k and v = v and p = q and q = pl, OF assms] by simp
  then have "lookup (fs(k \<mapsto> v)) q = nodeAt (fs(k \<mapsto> v)) pl"
    by (rule lookup_Inr)
  with Inr show ?thesis by (simp add: nodeAt_def)
qed

lemma lookup_del:
  assumes "fs k \<noteq> Some Directory"
  shows "lookup (fs(k := None)) q =
     (case resolve fs q of
        Inl e \<Rightarrow> None
      | Inr pl \<Rightarrow> if \<not> implicitPlace pl \<and> keyOf pl = k then None else nodeAt fs pl)"
proof (cases "resolve fs q")
  case (Inl e)
  then have "\<And>pl. resolve (fs(k := None)) q \<noteq> Inr pl"
    using resolve_del [where fs = fs and k = k and p = q, OF assms] by simp
  then have "lookup (fs(k := None)) q = None"
    by (rule lookup_Inl)
  with Inl show ?thesis by simp
next
  case (Inr pl)
  then have "resolve (fs(k := None)) q = Inr pl"
    using resolve_del [where fs = fs and k = k and p = q and q = pl, OF assms] by simp
  then have "lookup (fs(k := None)) q = nodeAt (fs(k := None)) pl"
    by (rule lookup_Inr)
  with Inr show ?thesis by (simp add: nodeAt_def)
qed

text \<open>A file that is not a directory sits at a place the map decides.\<close>

lemma nodeAt_file:
  "nodeAt fs pl = Some n \<Longrightarrow> n \<noteq> Directory \<Longrightarrow> \<not> implicitPlace pl \<and> fs (keyOf pl) = Some n"
  by (auto simp: nodeAt_def split: if_splits)

lemma openWrite_Inr:
  assumes "openWrite fs p = Inr opened"
  obtains pl where "resolve fs p = Inr pl" and "\<not> implicitPlace pl"
    and "fs (keyOf pl) \<noteq> Some Directory"
    and "(\<exists>c. fs (keyOf pl) = Some (Special c) \<and> opened = fs) \<or>
         ((fs (keyOf pl) = None \<or> (\<exists>c. fs (keyOf pl) = Some (Regular c))) \<and>
          opened = fs(keyOf pl \<mapsto> Regular []))"
proof -
  from assms obtain pl where r: "resolve fs p = Inr pl"
    by (auto simp: openWrite_def split: if_splits sum.splits)
  from assms r have n: "nodeAt fs pl \<noteq> Some Directory"
    by (auto simp: openWrite_def split: if_splits sum.splits)
  then have i: "\<not> implicitPlace pl" and d: "fs (keyOf pl) \<noteq> Some Directory"
    by (auto simp: nodeAt_def split: if_splits)
  from assms r i have "(\<exists>c. fs (keyOf pl) = Some (Special c) \<and> opened = fs) \<or>
         ((fs (keyOf pl) = None \<or> (\<exists>c. fs (keyOf pl) = Some (Regular c))) \<and>
          opened = fs(keyOf pl \<mapsto> Regular []))"
    by (auto simp: openWrite_def nodeAt_def split: if_splits sum.splits option.splits node.splits)
  with r i d show ?thesis by (rule that)
qed

lemma openWrite_writable: "openWrite fs p = Inr opened \<Longrightarrow> writable opened p"
proof (erule openWrite_Inr)
  fix pl
  assume r: "resolve fs p = Inr pl" and i: "\<not> implicitPlace pl"
    and d: "fs (keyOf pl) \<noteq> Some Directory"
    and c: "(\<exists>c. fs (keyOf pl) = Some (Special c) \<and> opened = fs) \<or>
         ((fs (keyOf pl) = None \<or> (\<exists>c. fs (keyOf pl) = Some (Regular c))) \<and>
          opened = fs(keyOf pl \<mapsto> Regular []))"
  from c show "writable opened p"
  proof
    assume "\<exists>c. fs (keyOf pl) = Some (Special c) \<and> opened = fs"
    with r i show ?thesis
      by (auto simp: writable_def lookup_Inr nodeAt_def)
  next
    assume "(fs (keyOf pl) = None \<or> (\<exists>c. fs (keyOf pl) = Some (Regular c))) \<and>
          opened = fs(keyOf pl \<mapsto> Regular [])"
    then have o: "opened = fs(keyOf pl \<mapsto> Regular [])" by simp
    have "lookup (fs(keyOf pl \<mapsto> Regular [])) p = Some (Regular [])"
      using lookup_upd [where fs = fs and k = "keyOf pl" and v = "Regular []" and q = p, OF d] r i by simp
    with o show ?thesis by (simp add: writable_def)
  qed
qed

lemma writable_lookup: "writable fs p \<Longrightarrow> lookup fs p \<noteq> None"
  by (auto simp: writable_def split: option.splits node.splits)

lemma writable_place:
  assumes "writable fs p"
  obtains pl where "resolve fs p = Inr pl" and "\<not> implicitPlace pl"
    and "(\<exists>c. fs (keyOf pl) = Some (Regular c)) \<or> (\<exists>c. fs (keyOf pl) = Some (Special c))"
proof -
  from assms obtain n where l: "lookup fs p = Some n" and n: "n \<noteq> Directory"
    and k: "(\<exists>c. n = Regular c) \<or> (\<exists>c. n = Special c)"
    by (auto simp: writable_def split: option.splits node.splits)
  from l obtain pl where r: "resolve fs p = Inr pl" and a: "nodeAt fs pl = Some n"
    using lookup_Some by blast
  from nodeAt_file [OF a n] k r show ?thesis
    by (auto intro: that)
qed

section \<open>The receive loop\<close>

lemma recvLoop_Regular:
  assumes "resolve fs p = Inr pl" and "\<not> implicitPlace pl"
    and "fs (keyOf pl) = Some (Regular c0)"
  shows "recvLoop rs p fs = (interrupted rs, fs(keyOf pl \<mapsto> Regular (c0 @ received rs)))"
  using assms
proof (induction rs arbitrary: fs c0)
  case Nil
  then show ?case by (simp add: map_upd_triv)
next
  case (Cons r rs)
  show ?case
  proof (cases r)
    case (Inl e)
    with Cons.prems show ?thesis by (simp add: map_upd_triv)
  next
    case (Inr chunk)
    show ?thesis
    proof (cases "chunk = []")
      case True
      with Inr Cons.prems show ?thesis by (simp add: map_upd_triv)
    next
      case False
      let ?fs' = "fs(keyOf pl \<mapsto> Regular (c0 @ chunk))"
      have w: "writeChunk fs p chunk = ?fs'"
        using Cons.prems by (simp add: writeChunk_def nodeAt_def)
      have d: "fs (keyOf pl) \<noteq> Some Directory"
        using Cons.prems(3) by simp
      have r': "resolve ?fs' p = Inr pl"
        using resolve_upd [where fs = fs and k = "keyOf pl" and v = "Regular (c0 @ chunk)" and p = p and q = pl, OF d] Cons.prems(1) by simp
      have ih: "recvLoop rs p ?fs' =
          (interrupted rs, ?fs'(keyOf pl \<mapsto> Regular ((c0 @ chunk) @ received rs)))"
        using r' Cons.prems(2) by (rule Cons.IH) simp
      have step: "recvLoop (r # rs) p fs = recvLoop rs p ?fs'"
        using Inr False w by simp
      have u: "?fs'(keyOf pl \<mapsto> Regular ((c0 @ chunk) @ received rs)) =
          fs(keyOf pl \<mapsto> Regular (c0 @ received (r # rs)))"
        using Inr False by simp
      have i: "interrupted (r # rs) = interrupted rs"
        using Inr False by simp
      show ?thesis
        unfolding step ih u i by (rule refl)
    qed
  qed
qed

lemma recvLoop_Special:
  assumes "resolve fs p = Inr pl" and "\<not> implicitPlace pl"
    and "fs (keyOf pl) = Some (Special c)"
  shows "recvLoop rs p fs = (interrupted rs, fs)"
proof -
  have w: "\<And>chunk. writeChunk fs p chunk = fs"
    using assms by (simp add: writeChunk_def nodeAt_def)
  show ?thesis
  proof (induction rs)
    case Nil
    show ?case by simp
  next
    case (Cons r rs)
    then show ?case by (cases r) (simp_all add: w)
  qed
qed

lemma recvLoop_interrupted: "writable fs p \<Longrightarrow> fst (recvLoop rs p fs) = interrupted rs"
  by (erule writable_place) (auto simp: recvLoop_Regular recvLoop_Special)

lemma recvLoop_writable: "writable fs p \<Longrightarrow> writable (snd (recvLoop rs p fs)) p"
proof (erule writable_place)
  fix pl
  assume r: "resolve fs p = Inr pl" and i: "\<not> implicitPlace pl"
    and c: "(\<exists>c. fs (keyOf pl) = Some (Regular c)) \<or> (\<exists>c. fs (keyOf pl) = Some (Special c))"
  from c show "writable (snd (recvLoop rs p fs)) p"
  proof (elim disjE exE)
    fix c0
    assume k: "fs (keyOf pl) = Some (Regular c0)"
    then have d: "fs (keyOf pl) \<noteq> Some Directory" by simp
    have "lookup (fs(keyOf pl \<mapsto> Regular (c0 @ received rs))) p =
        Some (Regular (c0 @ received rs))"
      using lookup_upd [where fs = fs and k = "keyOf pl" and v = "Regular (c0 @ received rs)" and q = p, OF d] r i by simp
    then show ?thesis
      by (simp add: recvLoop_Regular [OF r i k] writable_def)
  next
    fix c0
    assume k: "fs (keyOf pl) = Some (Special c0)"
    with r i have "lookup fs p = Some (Special c0)"
      by (simp add: lookup_Inr nodeAt_def)
    then show ?thesis
      by (simp add: recvLoop_Special [OF r i k] writable_def)
  qed
qed

lemma pieces_received: "received (map Inr (pieces sizes bytes)) = bytes"
proof (induction sizes bytes rule: pieces.induct)
  case (1 sizes bytes)
  show ?case
  proof (cases "bytes = []")
    case True
    then show ?thesis by (subst pieces.simps) simp
  next
    case False
    define n where "n = (case sizes of [] \<Rightarrow> chunkSize | k # _ \<Rightarrow> max 1 (min k chunkSize))"
    have "0 < n"
      by (simp add: n_def chunkSize_def max_def split: list.splits)
    with False have ne: "take n bytes \<noteq> []"
      by (cases bytes) auto
    have p: "pieces sizes bytes = take n bytes # pieces (tl sizes) (drop n bytes)"
      using False by (subst pieces.simps) (simp add: n_def Let_def)
    have "received (map Inr (pieces (tl sizes) (drop n bytes))) = drop n bytes"
      using "1.IH" [OF False n_def] .
    with ne show ?thesis by (simp add: p)
  qed
qed

lemma pieces_interrupted: "interrupted (map Inr (pieces sizes bytes)) = None"
proof (induction sizes bytes rule: pieces.induct)
  case (1 sizes bytes)
  show ?case
  proof (cases "bytes = []")
    case True
    then show ?thesis by (subst pieces.simps) simp
  next
    case False
    define n where "n = (case sizes of [] \<Rightarrow> chunkSize | k # _ \<Rightarrow> max 1 (min k chunkSize))"
    have "0 < n"
      by (simp add: n_def chunkSize_def max_def split: list.splits)
    with False have ne: "take n bytes \<noteq> []"
      by (cases bytes) auto
    have p: "pieces sizes bytes = take n bytes # pieces (tl sizes) (drop n bytes)"
      using False by (subst pieces.simps) (simp add: n_def Let_def)
    have "interrupted (map Inr (pieces (tl sizes) (drop n bytes))) = None"
      using "1.IH" [OF False n_def] .
    with ne show ?thesis by (simp add: p)
  qed
qed

section \<open>Paths of directory entries\<close>

lemma splitOn_plain: "sep \<notin> set s \<Longrightarrow> splitOn sep s = [s]"
  by (induction s) auto

lemma splitOn_append: "sep \<notin> set a \<Longrightarrow> splitOn sep (a @ sep # b) = a # splitOn sep b"
  by (induction a) (auto split: list.splits)

lemma walk_entry:
  assumes "d \<noteq> []" and "d \<noteq> ''.''" and "d \<noteq> ''..''" and "plainName f"
  shows "walk fs (False, []) [d, f] =
     (case fs d of
        None \<Rightarrow> Inl FileNotFoundError
      | Some Directory \<Rightarrow> Inr (False, [d, f])
      | Some _ \<Rightarrow> Inl NotADirectoryError)"
  using assms
  by (simp add: nodeAt_def implicitPlace_def keyOf_def plainName_def
      split: option.splits node.splits)

lemma resolve_entry:
  assumes "d \<noteq> []" and "d \<noteq> ''.''" and "d \<noteq> ''..''" and "CHR ''/'' \<notin> set d"
    and "CHR 0x00 \<notin> set d" and "plainName f"
  shows "resolve fs (d @ CHR ''/'' # f) =
     (if CHR 0x00 \<in> set f then Inl ValueError
      else case fs d of
        None \<Rightarrow> Inl FileNotFoundError
      | Some Directory \<Rightarrow> Inr (False, [d, f])
      | Some _ \<Rightarrow> Inl NotADirectoryError)"
proof -
  have s: "splitOn (CHR ''/'') (d @ CHR ''/'' # f) = [d, f]"
    using assms(4,6) by (simp add: splitOn_append splitOn_plain plainName_def)
  have st: "startPlace (d @ CHR ''/'' # f) = (False, [])"
    using assms(1,4) by (cases d) (auto simp: startPlace_def)
  note w = walk_entry [OF assms(1,2,3,6)]
  show ?thesis
    using assms(5) by (simp add: resolve_def s st w del: walk.simps)
qed

lemma lookup_entry:
  assumes "d \<noteq> []" and "d \<noteq> ''.''" and "d \<noteq> ''..''" and "CHR ''/'' \<notin> set d"
    and "CHR 0x00 \<notin> set d" and "plainName f"
  shows "lookup fs (d @ CHR ''/'' # f) =
     (if CHR 0x00 \<in> set f then None
      else case fs d of Some Directory \<Rightarrow> fs (d @ CHR ''/'' # f) | _ \<Rightarrow> None)"
  using assms(1,3)
  by (simp add: lookup_def resolve_entry [OF assms] nodeAt_def implicitPlace_def keyOf_def
      split: option.splits node.splits)

lemma pathJoin_upload: "take 1 f \<noteq> ''/'' \<Longrightarrow> pathJoin uploadsDir f = ''Uploads'' @ CHR ''/'' # f"
  by (simp add: pathJoin_def uploadsDir_def)

lemma pathJoin_download: "take 1 f \<noteq> ''/'' \<Longrightarrow> pathJoin downloadsDir f = ''Downloads'' @ CHR ''/'' # f"
  by (simp add: pathJoin_def downloadsDir_def)

lemma plain_relative: "plainName f \<Longrightarrow> take 1 f \<noteq> ''/''"
  by (cases f) (auto simp: plainName_def)

lemma resolve_upload:
  assumes "plainName f"
  shows "resolve fs (pathJoin uploadsDir f) =
     (if CHR 0x00 \<in> set f then Inl ValueError
      else case fs ''Uploads'' of
        None \<Rightarrow> Inl FileNotFoundError
      | Some Directory \<Rightarrow> Inr (False, [''Uploads'', f])
      | Some _ \<Rightarrow> Inl NotADirectoryError)"
  unfolding pathJoin_upload [OF plain_relative [OF assms]]
  by (rule resolve_entry) (simp_all add: assms)

lemma resolve_download:
  assumes "plainName f"
  shows "resolve fs (pathJoin downloadsDir f) =
     (if CHR 0x00 \<in> set f then Inl ValueError
      else case fs ''Downloads'' of
        None \<Rightarrow> Inl FileNotFoundError
      | Some Directory \<Rightarrow> Inr (False, [''Downloads'', f])
      | Some _ \<Rightarrow> Inl NotADirectoryError)"
  unfolding pathJoin_download [OF plain_relative [OF assms]]
  by (rule resolve_entry) (simp_all add: assms)

lemma lookup_upload:
  assumes "plainName f"
  shows "lookup fs (pathJoin uploadsDir f) =
     (if CHR 0x00 \<in> set f then None
      else case fs ''Uploads'' of Some Directory \<Rightarrow> fs (pathJoin uploadsDir f) | _ \<Rightarrow> None)"
  unfolding pathJoin_upload [OF plain_relative [OF assms]]
  by (rule lookup_entry) (simp_all add: assms)

lemma lookup_download:
  assumes "plainName f"
  shows "lookup fs (pathJoin downloadsDir f) =
     (if CHR 0x00 \<in> set f then None
      else case fs ''Downloads'' of Some Directory \<Rightarrow> fs (pathJoin downloadsDir f) | _ \<Rightarrow> None)"
  unfolding pathJoin_download [OF plain_relative [OF assms]]
  by (rule lookup_entry) (simp_all add: assms)

lemma keyOf_upload: "take 1 f \<noteq> ''/'' \<Longrightarrow> keyOf (False, [''Uploads'', f]) = pathJoin uploadsDir f"
  by (simp add: keyOf_def pathJoin_def uploadsDir_def)

lemma keyOf_download: "take 1 f \<noteq> ''/'' \<Longrightarrow> keyOf (False, [''Downloads'', f]) = pathJoin downloadsDir f"
  by (simp add: keyOf_def pathJoin_def downloadsDir_def)

lemma paths_differ: "take 1 f \<noteq> ''/'' \<Longrightarrow> pathJoin uploadsDir f \<noteq> pathJoin downloadsDir f"
  by (simp add: pathJoin_def uploadsDir_def downloadsDir_def)

lemma lookup_dir: "lookup fs downloadsDir = fs ''Downloads''" "lookup fs uploadsDir = fs ''Uploads''"
  by (simp_all add: path_eval)

lemma pathJoin_NUL:
  "(CHR 0x00 \<in> set (pathJoin downloadsDir f)) = (CHR 0x00 \<in> set f)"
  "(CHR 0x00 \<in> set (pathJoin uploadsDir f)) = (CHR 0x00 \<in> set f)"
  by (auto simp: pathJoin_def downloadsDir_def uploadsDir_def)

section \<open>The Fetch Client: opening, receiving, verifying\<close>

lemma fetchFile_startTransfer:
  "fetchFile H dumps net fs peer filename =
     (case startTransfer dumps net fs peer filename of
        Inl e \<Rightarrow> ([Failure e], fs)
      | Inr (rep, opened) \<Rightarrow>
          (case recvLoop (incoming rep) (pathJoin downloadsDir filename) opened of
             (Some e, written) \<Rightarrow> ([Failure e], written)
           | (None, written) \<Rightarrow>
               verifyDownload H written filename (pathJoin downloadsDir filename)))"
  by (simp add: fetchFile_def startTransfer_def Let_def
      split: sum.splits option.splits prod.splits)

lemma startTransfer_opened:
  "startTransfer dumps net fs peer filename = Inr (rep, opened) \<Longrightarrow>
     openWrite fs (pathJoin downloadsDir filename) = Inr opened"
  by (auto simp: startTransfer_def Let_def split: sum.splits option.splits prod.splits)

lemma connect_handler:
  "0 \<le> port \<Longrightarrow> port \<le> 65535 \<Longrightarrow> net ipAddress port = handlerPeer loads served sizes \<Longrightarrow>
     connect net ipAddress port = Inr (handlerPeer loads served sizes)"
  by (simp add: connect_def handlerPeer_def)

lemma startTransfer_handler:
  assumes "parsePeer peer = Inr (ipAddress, port)" and "0 \<le> port" and "port \<le> 65535"
    and "net ipAddress port = handlerPeer loads served sizes"
  shows "startTransfer dumps net fs peer filename =
     (case openWrite fs (pathJoin downloadsDir filename) of
        Inl e \<Rightarrow> Inl e
      | Inr opened \<Rightarrow>
          Inr (respond (handlerPeer loads served sizes) (dumps (clientRequest filename)), opened))"
proof -
  have c: "connect net ipAddress port = Inr (handlerPeer loads served sizes)"
    using assms(2,3,4) by (rule connect_handler)
  have s: "sendError (respond (handlerPeer loads served sizes) (dumps (clientRequest filename))) = None"
    by (simp add: handlerPeer_def)
  show ?thesis
    by (simp add: startTransfer_def assms(1) c s Let_def)
qed

lemma handler_incoming:
  "incoming (respond (handlerPeer loads served sizes) request) =
     map Inr (pieces sizes (wire (snd (handleClient loads served (accepted request)))))"
  by (simp add: handlerPeer_def)

lemma handler_received:
  "received (incoming (respond (handlerPeer loads served sizes) request)) =
     wire (snd (handleClient loads served (accepted request)))"
  by (simp add: handler_incoming pieces_received)

lemma handler_interrupted:
  "interrupted (incoming (respond (handlerPeer loads served sizes) request)) = None"
  by (simp add: handler_incoming pieces_interrupted)

text \<open>Removing the file a writer had open.\<close>

lemma removeFile_writable:
  assumes "writable fs p"
  shows "\<exists>gone. removeFile fs p = Inr gone \<and> lookup gone p = None"
  using assms
proof (rule writable_place)
  fix pl
  assume r: "resolve fs p = Inr pl" and i: "\<not> implicitPlace pl"
    and c: "(\<exists>c. fs (keyOf pl) = Some (Regular c)) \<or> (\<exists>c. fs (keyOf pl) = Some (Special c))"
  from c have d: "fs (keyOf pl) \<noteq> Some Directory" by auto
  from c r i have "removeFile fs p = Inr (fs(keyOf pl := None))"
    by (auto simp: removeFile_def nodeAt_def)
  moreover have "lookup (fs(keyOf pl := None)) p = None"
    using lookup_del [where fs = fs and k = "keyOf pl" and q = p, OF d] r i by simp
  ultimately show ?thesis by simp
qed

lemma removeFile_place:
  assumes "resolve fs p = Inr pl" and "\<not> implicitPlace pl" and "fs (keyOf pl) = Some (Regular c)"
  shows "removeFile fs p = Inr (fs(keyOf pl := None))"
  using assms by (simp add: removeFile_def nodeAt_def)

lemma writable_NUL: "writable fs p \<Longrightarrow> CHR 0x00 \<notin> set p"
  using lookup_NUL [of p fs] by (auto simp: writable_def)

lemma calculateFileHash_writable:
  assumes "writable fs (pathJoin downloadsDir filename)"
  shows "\<exists>h. calculateFileHash H fs (pathJoin downloadsDir filename) = Inr (Some h)"
    and "\<exists>h. calculateFileHash H fs (pathJoin uploadsDir filename) = Inr h"
proof -
  from assms have n: "CHR 0x00 \<notin> set (pathJoin downloadsDir filename)"
    by (rule writable_NUL)
  then have u: "CHR 0x00 \<notin> set (pathJoin uploadsDir filename)"
    by (simp add: pathJoin_NUL)
  from assms show "\<exists>h. calculateFileHash H fs (pathJoin downloadsDir filename) = Inr (Some h)"
    by (auto simp: calculateFileHash_value [OF n] writable_def split: option.splits node.splits)
  show "\<exists>h. calculateFileHash H fs (pathJoin uploadsDir filename) = Inr h"
    by (simp add: calculateFileHash_value [OF u])
qed

lemma verifyDownload_writable:
  assumes "writable fs (pathJoin downloadsDir filename)"
  shows "calculateFileHash H fs (pathJoin downloadsDir filename) =
         calculateFileHash H fs (pathJoin uploadsDir filename) \<Longrightarrow>
         verifyDownload H fs filename (pathJoin downloadsDir filename) = ([Verified], fs)"
    and "calculateFileHash H fs (pathJoin downloadsDir filename) \<noteq>
         calculateFileHash H fs (pathJoin uploadsDir filename) \<Longrightarrow>
         \<exists>gone. removeFile fs (pathJoin downloadsDir filename) = Inr gone \<and>
           lookup gone (pathJoin downloadsDir filename) = None \<and>
           verifyDownload H fs filename (pathJoin downloadsDir filename) =
             ([VerificationFailed], gone)"
proof -
  from calculateFileHash_writable [OF assms, of H]
  obtain h g where h: "calculateFileHash H fs (pathJoin downloadsDir filename) = Inr (Some h)"
    and g: "calculateFileHash H fs (pathJoin uploadsDir filename) = Inr g"
    by blast
  from removeFile_writable [OF assms]
  obtain gone where r: "removeFile fs (pathJoin downloadsDir filename) = Inr gone"
    and l: "lookup gone (pathJoin downloadsDir filename) = None"
    by blast
  show "calculateFileHash H fs (pathJoin downloadsDir filename) =
         calculateFileHash H fs (pathJoin uploadsDir filename) \<Longrightarrow>
         verifyDownload H fs filename (pathJoin downloadsDir filename) = ([Verified], fs)"
    by (simp add: verifyDownload_def h g)
  show "calculateFileHash H fs (pathJoin downloadsDir filename) \<noteq>
         calculateFileHash H fs (pathJoin uploadsDir filename) \<Longrightarrow>
         \<exists>gone. removeFile fs (pathJoin downloadsDir filename) = Inr gone \<and>
           lookup gone (pathJoin downloadsDir filename) = None \<and>
           verifyDownload H fs filename (pathJoin downloadsDir filename) =
             ([VerificationFailed], gone)"
    using r l by (simp add: verifyDownload_def h g)
qed

text \<open>A run that opened its local file, step by step.\<close>

lemma fetchFile_opened:
  assumes st: "startTransfer dumps net fs peer filename = Inr (rep, opened)"
    and rl: "recvLoop (incoming rep) (pathJoin downloadsDir filename) opened = (r, written)"
  shows "r = interrupted (incoming rep)"
    and "writable written (pathJoin downloadsDir filename)"
    and "\<And>e. r = Some e \<Longrightarrow> fetchFile H dumps net fs peer filename = ([Failure e], written)"
    and "r = None \<Longrightarrow>
         fetchFile H dumps net fs peer filename =
           verifyDownload H written filename (pathJoin downloadsDir filename)"
proof -
  from st have "openWrite fs (pathJoin downloadsDir filename) = Inr opened"
    by (rule startTransfer_opened)
  then have w: "writable opened (pathJoin downloadsDir filename)"
    by (rule openWrite_writable)
  from recvLoop_interrupted [OF w, of "incoming rep"] rl
  show "r = interrupted (incoming rep)" by simp
  from recvLoop_writable [OF w, of "incoming rep"] rl
  show "writable written (pathJoin downloadsDir filename)" by simp
  show "\<And>e. r = Some e \<Longrightarrow> fetchFile H dumps net fs peer filename = ([Failure e], written)"
    by (simp add: fetchFile_startTransfer st rl)
  show "r = None \<Longrightarrow>
         fetchFile H dumps net fs peer filename =
           verifyDownload H written filename (pathJoin downloadsDir filename)"
    by (simp add: fetchFile_startTransfer st rl)
qed

text \<open>A run that created or truncated a regular file.\<close>

lemma opened_regular:
  assumes o: "openWrite fs p = Inr opened" and f: "isfile opened p"
  obtains pl where "resolve fs p = Inr pl" and "\<not> implicitPlace pl"
    and "fs (keyOf pl) \<noteq> Some Directory" and "opened = fs(keyOf pl \<mapsto> Regular [])"
  using o
proof (rule openWrite_Inr)
  fix pl
  assume r: "resolve fs p = Inr pl" and i: "\<not> implicitPlace pl"
    and d: "fs (keyOf pl) \<noteq> Some Directory"
    and c: "(\<exists>c. fs (keyOf pl) = Some (Special c) \<and> opened = fs) \<or>
         ((fs (keyOf pl) = None \<or> (\<exists>c. fs (keyOf pl) = Some (Regular c))) \<and>
          opened = fs(keyOf pl \<mapsto> Regular []))"
  have "\<not> (\<exists>c. fs (keyOf pl) = Some (Special c) \<and> opened = fs)"
  proof
    assume "\<exists>c. fs (keyOf pl) = Some (Special c) \<and> opened = fs"
    then obtain c where "fs (keyOf pl) = Some (Special c)" and "opened = fs" by blast
    with r i have "lookup opened p = Some (Special c)"
      by (simp add: lookup_Inr nodeAt_def)
    with f show False by (simp add: isfile_def)
  qed
  with c have "opened = fs(keyOf pl \<mapsto> Regular [])" by blast
  with r i d show thesis by (rule that)
qed

lemma recvLoop_created:
  assumes r: "resolve fs p = Inr pl" and i: "\<not> implicitPlace pl"
    and d: "fs (keyOf pl) \<noteq> Some Directory"
  shows "recvLoop rs p (fs(keyOf pl \<mapsto> Regular [])) =
           (interrupted rs, fs(keyOf pl \<mapsto> Regular (received rs)))"
    and "lookup (fs(keyOf pl \<mapsto> Regular content)) p = Some (Regular content)"
    and "resolve (fs(keyOf pl \<mapsto> Regular content)) p = Inr pl"
proof -
  have r': "resolve (fs(keyOf pl \<mapsto> Regular [])) p = Inr pl"
    using resolve_upd [where fs = fs and k = "keyOf pl" and v = "Regular []" and p = p
        and q = pl, OF d] r by simp
  have "recvLoop rs p (fs(keyOf pl \<mapsto> Regular [])) =
      (interrupted rs, (fs(keyOf pl \<mapsto> Regular []))(keyOf pl \<mapsto> Regular ([] @ received rs)))"
    using r' i by (rule recvLoop_Regular) simp
  then show "recvLoop rs p (fs(keyOf pl \<mapsto> Regular [])) =
           (interrupted rs, fs(keyOf pl \<mapsto> Regular (received rs)))"
    by simp
  show "lookup (fs(keyOf pl \<mapsto> Regular content)) p = Some (Regular content)"
    using lookup_upd [where fs = fs and k = "keyOf pl" and v = "Regular content" and q = p, OF d]
      r i by simp
  show "resolve (fs(keyOf pl \<mapsto> Regular content)) p = Inr pl"
    using resolve_upd [where fs = fs and k = "keyOf pl" and v = "Regular content" and p = p
        and q = pl, OF d] r by simp
qed

lemma fetchFile_created:
  assumes st: "startTransfer dumps net fs peer filename = Inr (rep, opened)"
    and f: "isfile opened (pathJoin downloadsDir filename)"
  shows "\<exists>pl. resolve fs (pathJoin downloadsDir filename) = Inr pl \<and> \<not> implicitPlace pl \<and>
     fs (keyOf pl) \<noteq> Some Directory \<and>
     opened = fs(keyOf pl \<mapsto> Regular []) \<and>
     recvLoop (incoming rep) (pathJoin downloadsDir filename) opened =
       (interrupted (incoming rep), fs(keyOf pl \<mapsto> Regular (received (incoming rep)))) \<and>
     lookup (fs(keyOf pl \<mapsto> Regular (received (incoming rep)))) (pathJoin downloadsDir filename) =
       Some (Regular (received (incoming rep))) \<and>
     calculateFileHash H (fs(keyOf pl \<mapsto> Regular (received (incoming rep))))
       (pathJoin downloadsDir filename) = Inr (Some (H (received (incoming rep)))) \<and>
     fetchFile H dumps net fs peer filename =
       (case interrupted (incoming rep) of
          Some e \<Rightarrow> ([Failure e], fs(keyOf pl \<mapsto> Regular (received (incoming rep))))
        | None \<Rightarrow>
            if calculateFileHash H (fs(keyOf pl \<mapsto> Regular (received (incoming rep))))
                 (pathJoin uploadsDir filename) = Inr (Some (H (received (incoming rep))))
            then ([Verified], fs(keyOf pl \<mapsto> Regular (received (incoming rep))))
            else ([VerificationFailed], fs(keyOf pl := None)))"
proof -
  let ?t = "pathJoin downloadsDir filename"
  let ?u = "pathJoin uploadsDir filename"
  let ?b = "received (incoming rep)"
  from st have o: "openWrite fs ?t = Inr opened"
    by (rule startTransfer_opened)
  from o f obtain pl where r: "resolve fs ?t = Inr pl" and i: "\<not> implicitPlace pl"
    and d: "fs (keyOf pl) \<noteq> Some Directory" and op: "opened = fs(keyOf pl \<mapsto> Regular [])"
    by (rule opened_regular)
  let ?w = "fs(keyOf pl \<mapsto> Regular ?b)"
  note c = recvLoop_created [OF r i d]
  have rl: "recvLoop (incoming rep) ?t opened = (interrupted (incoming rep), ?w)"
    unfolding op by (rule c(1))
  have l: "lookup ?w ?t = Some (Regular ?b)"
    by (rule c(2))
  have rw: "resolve ?w ?t = Inr pl"
    by (rule c(3))
  have wr: "writable ?w ?t"
    by (simp add: writable_def l)
  have n: "CHR 0x00 \<notin> set ?t"
    using wr by (rule writable_NUL)
  have h: "calculateFileHash H ?w ?t = Inr (Some (H ?b))"
    by (simp add: calculateFileHash_value [OF n] l)
  have rm: "removeFile ?w ?t = Inr (fs(keyOf pl := None))"
    using removeFile_place [OF rw i, of ?b] by simp
  have v: "verifyDownload H ?w filename ?t =
      (if calculateFileHash H ?w ?u = Inr (Some (H ?b)) then ([Verified], ?w)
       else ([VerificationFailed], fs(keyOf pl := None)))"
  proof (cases "calculateFileHash H ?w ?t = calculateFileHash H ?w ?u")
    case True
    with verifyDownload_writable(1) [OF wr True] h show ?thesis by simp
  next
    case False
    from verifyDownload_writable(2) [OF wr False] rm
    have "verifyDownload H ?w filename ?t = ([VerificationFailed], fs(keyOf pl := None))"
      by auto
    with False h show ?thesis by auto
  qed
  have ff: "fetchFile H dumps net fs peer filename =
       (case interrupted (incoming rep) of
          Some e \<Rightarrow> ([Failure e], ?w)
        | None \<Rightarrow>
            if calculateFileHash H ?w ?u = Inr (Some (H ?b)) then ([Verified], ?w)
            else ([VerificationFailed], fs(keyOf pl := None)))"
    by (simp add: fetchFile_startTransfer st rl v split: option.splits)
  from r i d op rl l h ff show ?thesis
    by blast
qed

section \<open>The Fetch Client against a Handler\<close>

lemma fetchFile_handler_created:
  assumes peer: "parsePeer peer = Inr (ipAddress, port)" "0 \<le> port" "port \<le> 65535"
    and net: "net ipAddress port = handlerPeer loads served sizes"
    and o: "openWrite fs (pathJoin downloadsDir filename) = Inr opened"
    and f: "isfile opened (pathJoin downloadsDir filename)"
    and r: "resolve fs (pathJoin downloadsDir filename) = Inr pl"
    and b: "wire (snd (handleClient loads served (accepted (dumps (clientRequest filename))))) = bytes"
  shows "fetchFile H dumps net fs peer filename =
     (if calculateFileHash H (fs(keyOf pl \<mapsto> Regular bytes)) (pathJoin uploadsDir filename) =
           Inr (Some (H bytes))
      then ([Verified], fs(keyOf pl \<mapsto> Regular bytes))
      else ([VerificationFailed], fs(keyOf pl := None)))"
proof -
  let ?rep = "respond (handlerPeer loads served sizes) (dumps (clientRequest filename))"
  have st: "startTransfer dumps net fs peer filename = Inr (?rep, opened)"
    using startTransfer_handler [where dumps = dumps and fs = fs and filename = filename
        and net = net and loads = loads and served = served and sizes = sizes, OF peer net] o
    by simp
  have rc: "received (incoming ?rep) = bytes"
    using b by (simp add: handler_received)
  have ir: "interrupted (incoming ?rep) = None"
    by (rule handler_interrupted)
  from fetchFile_created [OF st f, of H] r rc ir show ?thesis
    by auto
qed

lemma last_download: "plainName f \<Longrightarrow> last (pathJoin downloadsDir f) \<noteq> CHR ''/''"
proof -
  assume p: "plainName f"
  then have "f \<noteq> []" by (simp add: plainName_def)
  then have "last f \<in> set f" by (rule last_in_set)
  moreover from p have "CHR ''/'' \<notin> set f" by (simp add: plainName_def)
  ultimately have "last f \<noteq> CHR ''/''" by metis
  with \<open>f \<noteq> []\<close> show ?thesis
    by (simp add: pathJoin_def downloadsDir_def)
qed

lemma openWrite_plain:
  assumes name: "plainName f" and nul: "CHR 0x00 \<notin> set f"
    and dir: "fs ''Downloads'' = Some Directory"
    and target: "fs (pathJoin downloadsDir f) = None \<or> (\<exists>c. fs (pathJoin downloadsDir f) = Some (Regular c))"
  shows "openWrite fs (pathJoin downloadsDir f) = Inr (fs(pathJoin downloadsDir f \<mapsto> Regular []))"
proof -
  let ?t = "pathJoin downloadsDir f"
  have r: "resolve fs ?t = Inr (False, [''Downloads'', f])"
    using nul dir by (simp add: resolve_download [OF name])
  have k: "keyOf (False, [''Downloads'', f]) = ?t"
    using plain_relative [OF name] by (rule keyOf_download)
  have i: "\<not> implicitPlace (False, [''Downloads'', f])"
    by (simp add: implicitPlace_def)
  have n: "nodeAt fs (False, [''Downloads'', f]) = fs ?t"
    using i k by (simp add: nodeAt_def)
  have e: "?t \<noteq> []"
    by (auto simp: pathJoin_def downloadsDir_def)
  have z: "CHR 0x00 \<notin> set ?t"
    using nul by (simp add: pathJoin_NUL)
  from target show ?thesis
    by (auto simp: openWrite_def e z last_download [OF name] r n k)
qed

section \<open>Parent references in the file name\<close>

lemma pathJoin_parent:
  "pathJoin downloadsDir (CHR ''.'' # CHR ''.'' # CHR ''/'' # n) =
     ''Downloads'' @ CHR ''/'' # CHR ''.'' # CHR ''.'' # CHR ''/'' # n"
  "pathJoin uploadsDir (CHR ''.'' # CHR ''.'' # CHR ''/'' # n) =
     ''Uploads'' @ CHR ''/'' # CHR ''.'' # CHR ''.'' # CHR ''/'' # n"
  by (simp_all add: pathJoin_def downloadsDir_def uploadsDir_def)

lemma walk_parent:
  assumes "d \<noteq> []" and "d \<noteq> ''.''" and "d \<noteq> ''..''" and "plainName n"
  shows "walk fs (False, []) [d, ''..'', n] =
     (case fs d of
        None \<Rightarrow> Inl FileNotFoundError
      | Some Directory \<Rightarrow> Inr (False, [n])
      | Some _ \<Rightarrow> Inl NotADirectoryError)"
  using assms
  by (simp add: nodeAt_def implicitPlace_def keyOf_def plainName_def up_def
      split: option.splits node.splits)

lemma resolve_parent_entry:
  assumes "d \<noteq> []" and "d \<noteq> ''.''" and "d \<noteq> ''..''" and "CHR ''/'' \<notin> set d"
    and "CHR 0x00 \<notin> set d" and "plainName n"
  shows "resolve fs (d @ CHR ''/'' # CHR ''.'' # CHR ''.'' # CHR ''/'' # n) =
     (if CHR 0x00 \<in> set n then Inl ValueError
      else case fs d of
        None \<Rightarrow> Inl FileNotFoundError
      | Some Directory \<Rightarrow> Inr (False, [n])
      | Some _ \<Rightarrow> Inl NotADirectoryError)"
proof -
  have b: "splitOn (CHR ''/'') (CHR ''.'' # CHR ''.'' # CHR ''/'' # n) = [''..'', n]"
    using assms(6) by (simp add: splitOn_plain plainName_def)
  have a: "splitOn (CHR ''/'') (d @ CHR ''/'' # CHR ''.'' # CHR ''.'' # CHR ''/'' # n) =
      d # splitOn (CHR ''/'') (CHR ''.'' # CHR ''.'' # CHR ''/'' # n)"
    using assms(4) by (rule splitOn_append)
  have s: "splitOn (CHR ''/'') (d @ CHR ''/'' # CHR ''.'' # CHR ''.'' # CHR ''/'' # n) =
      [d, ''..'', n]"
    unfolding a b by (rule refl)
  have st: "startPlace (d @ CHR ''/'' # CHR ''.'' # CHR ''.'' # CHR ''/'' # n) = (False, [])"
    using assms(1,4) by (cases d) (auto simp: startPlace_def)
  note w = walk_parent [OF assms(1,2,3,6)]
  show ?thesis
    using assms(5) by (simp add: resolve_def s st w del: walk.simps)
qed

lemma resolve_parent:
  assumes "plainName n"
  shows "resolve fs (pathJoin downloadsDir (CHR ''.'' # CHR ''.'' # CHR ''/'' # n)) =
     (if CHR 0x00 \<in> set n then Inl ValueError
      else case fs ''Downloads'' of
        None \<Rightarrow> Inl FileNotFoundError
      | Some Directory \<Rightarrow> Inr (False, [n])
      | Some _ \<Rightarrow> Inl NotADirectoryError)"
  unfolding pathJoin_parent
  by (rule resolve_parent_entry) (simp_all add: assms)

lemma plain_outside: "plainName n \<Longrightarrow> \<not> insideDir downloadsDir n"
proof
  assume n: "plainName n" and "insideDir downloadsDir n"
  then have "take (Suc (length downloadsDir)) n = downloadsDir @ ''/''"
    by (simp add: insideDir_def)
  then have "CHR ''/'' \<in> set (take (Suc (length downloadsDir)) n)"
    by simp
  then have "CHR ''/'' \<in> set n"
    by (rule in_set_takeD)
  with n show False by (simp add: plainName_def)
qed

lemma walk_fst: "walk fs pl cs = Inr q \<Longrightarrow> fst q = fst pl"
proof (induction cs arbitrary: pl)
  case Nil
  then show ?case by simp
next
  case (Cons c cs)
  from Cons.prems obtain pl' where w: "walk fs pl' cs = Inr q" and f: "fst pl' = fst pl"
    by (auto simp: up_def split: option.splits node.splits if_splits)
  from Cons.IH [OF w] f show ?case by simp
qed

lemma resolve_fst: "resolve fs p = Inr pl \<Longrightarrow> fst pl = (take 1 p = ''/'')"
  by (auto simp: resolve_def startPlace_def dest: walk_fst split: if_splits)

lemma keyOf_single: "n \<noteq> [] \<Longrightarrow> keyOf (False, [n]) = n"
  by (simp add: keyOf_def)

section \<open>Example runs\<close>

lemma parsePeer_local: "parsePeer (JString ''127.0.0.1:5000'') = Inr (''127.0.0.1'', 5000)"
  by code_simp

lemma port_local: "(0::int) \<le> 5000" "(5000::int) \<le> 65535"
  by simp_all

lemma handlerNet_local: "handlerNet ''127.0.0.1'' 5000 = handlerPeer sampleLoads servedFs [2]"
  by (simp add: handlerNet_def)

lemma siteNet_local: "siteNet ''127.0.0.1'' 5000 = handlerPeer sampleLoads siteFs [1]"
  by (simp add: siteNet_def)

lemma sample_codec_missing:
  "sampleLoads (take 1024 (sampleDumps (clientRequest ''missing.txt''))) =
     Inr (clientRequest ''missing.txt'')"
  by code_simp

lemma sample_codec_empty:
  "sampleLoads (take 1024 (sampleDumps (clientRequest ''empty.txt''))) =
     Inr (clientRequest ''empty.txt'')"
  by code_simp

lemma sample_codec_outside:
  "sampleLoads (take 1024 (sampleDumps (clientRequest ''../a.txt''))) =
     Inr (clientRequest ''../a.txt'')"
  by code_simp

lemma sample_codec_notes:
  "sampleLoads (take 1024 (sampleDumps (clientRequest ''../notes.txt''))) =
     Inr (clientRequest ''../notes.txt'')"
  by code_simp

lemma sample_codec_nested:
  "sampleLoads (take 1024 (sampleDumps (clientRequest ''sub/b.txt''))) =
     Inr (clientRequest ''sub/b.txt'')"
  by code_simp

lemma sample_codec_nodir:
  "sampleLoads (take 1024 (sampleDumps (clientRequest ''sub/x''))) =
     Inr (clientRequest ''sub/x'')"
  by code_simp

lemma sample_codec_absolute:
  "sampleLoads (take 1024 (sampleDumps (clientRequest ''/srv/c.txt''))) =
     Inr (clientRequest ''/srv/c.txt'')"
  by code_simp

lemmas run_eval =
  openWrite_def openRead_def isfile_def pathExists_def removeFile_def
  servedFs_def bareFs_def siteFs_def subFs_def srvFs_def path_eval

lemma wire_a:
  "wire (snd (handleClient sampleLoads servedFs (accepted (sampleDumps (clientRequest ''a.txt''))))) =
     [1, 2, 3]"
  using handleClient_wire [where loads = sampleLoads and data = "sampleDumps (clientRequest ''a.txt'')"
      and fs = servedFs, OF sample_codec_a getitem_clientRequest]
  by (simp add: run_eval)

lemma wire_notes:
  "wire (snd (handleClient sampleLoads siteFs
     (accepted (sampleDumps (clientRequest ''../notes.txt''))))) = [4, 5]"
  using handleClient_wire [where loads = sampleLoads
      and data = "sampleDumps (clientRequest ''../notes.txt'')"
      and fs = siteFs, OF sample_codec_notes getitem_clientRequest]
  by (simp add: run_eval)

lemma wire_absolute:
  "wire (snd (handleClient sampleLoads siteFs
     (accepted (sampleDumps (clientRequest ''/srv/c.txt''))))) = [9]"
  using handleClient_wire [where loads = sampleLoads
      and data = "sampleDumps (clientRequest ''/srv/c.txt'')"
      and fs = siteFs, OF sample_codec_absolute getitem_clientRequest]
  by (simp add: run_eval)

lemma wire_nested:
  "wire (snd (handleClient sampleLoads siteFs
     (accepted (sampleDumps (clientRequest ''sub/b.txt''))))) = [6]"
  using handleClient_wire [where loads = sampleLoads
      and data = "sampleDumps (clientRequest ''sub/b.txt'')"
      and fs = siteFs, OF sample_codec_nested getitem_clientRequest]
  by (simp add: run_eval)

lemma run_mismatch:
  "fetchFile lengthDigest sampleDumps handlerNet bareFs (JString ''127.0.0.1:5000'') ''a.txt'' =
     ([VerificationFailed], bareFs)"
proof -
  have o: "openWrite bareFs (pathJoin downloadsDir ''a.txt'') =
      Inr (bareFs(''Downloads/a.txt'' \<mapsto> Regular []))"
    by (simp add: run_eval)
  have f: "isfile (bareFs(''Downloads/a.txt'' \<mapsto> Regular [])) (pathJoin downloadsDir ''a.txt'')"
    by (simp add: run_eval)
  have r: "resolve bareFs (pathJoin downloadsDir ''a.txt'') = Inr (False, [''Downloads'', ''a.txt''])"
    by (simp add: run_eval)
  have n: "CHR 0x00 \<notin> set (pathJoin uploadsDir ''a.txt'')"
    by (simp add: run_eval)
  have h: "calculateFileHash lengthDigest
      (bareFs(keyOf (False, [''Downloads'', ''a.txt'']) \<mapsto> Regular [1, 2, 3]))
      (pathJoin uploadsDir ''a.txt'') = Inr None"
    by (simp add: calculateFileHash_value [OF n]) (simp add: run_eval)
  have g: "bareFs(keyOf (False, [''Downloads'', ''a.txt'']) := None) = bareFs"
    by (simp add: bareFs_def keyOf_def)
  show ?thesis
    using fetchFile_handler_created [where H = lengthDigest and dumps = sampleDumps
        and net = handlerNet and loads = sampleLoads and served = servedFs and sizes = "[2]"
        and fs = bareFs and filename = "''a.txt''",
        OF parsePeer_local port_local handlerNet_local o f r wire_a] h g
    by simp
qed

lemma wire_missing:
  "wire (snd (handleClient sampleLoads servedFs
     (accepted (sampleDumps (clientRequest ''missing.txt''))))) = []"
  using handleClient_wire [where loads = sampleLoads
      and data = "sampleDumps (clientRequest ''missing.txt'')"
      and fs = servedFs, OF sample_codec_missing getitem_clientRequest]
  by (simp add: run_eval)

lemma run_missing:
  "fetchFile lengthDigest sampleDumps handlerNet servedFs (JString ''127.0.0.1:5000'')
     ''missing.txt'' = ([VerificationFailed], servedFs)"
proof -
  have o: "openWrite servedFs (pathJoin downloadsDir ''missing.txt'') =
      Inr (servedFs(''Downloads/missing.txt'' \<mapsto> Regular []))"
    by (simp add: run_eval)
  have f: "isfile (servedFs(''Downloads/missing.txt'' \<mapsto> Regular []))
      (pathJoin downloadsDir ''missing.txt'')"
    by (simp add: run_eval)
  have r: "resolve servedFs (pathJoin downloadsDir ''missing.txt'') =
      Inr (False, [''Downloads'', ''missing.txt''])"
    by (simp add: run_eval)
  have n: "CHR 0x00 \<notin> set (pathJoin uploadsDir ''missing.txt'')"
    by (simp add: run_eval)
  have h: "calculateFileHash lengthDigest
      (servedFs(keyOf (False, [''Downloads'', ''missing.txt'']) \<mapsto> Regular []))
      (pathJoin uploadsDir ''missing.txt'') = Inr None"
    by (simp add: calculateFileHash_value [OF n]) (simp add: run_eval)
  have g: "servedFs(keyOf (False, [''Downloads'', ''missing.txt'']) := None) = servedFs"
    by (simp add: servedFs_def keyOf_def)
  show ?thesis
    using fetchFile_handler_created [where H = lengthDigest and dumps = sampleDumps
        and net = handlerNet and loads = sampleLoads and served = servedFs and sizes = "[2]"
        and fs = servedFs and filename = "''missing.txt''",
        OF parsePeer_local port_local handlerNet_local o f r wire_missing] h g
    by simp
qed

lemma run_nested:
  "fetchFile lengthDigest sampleDumps siteNet subFs (JString ''127.0.0.1:5000'') ''sub/b.txt'' =
     ([Verified], subFs(''Downloads/sub/b.txt'' \<mapsto> Regular [6]))"
proof -
  have o: "openWrite subFs (pathJoin downloadsDir ''sub/b.txt'') =
      Inr (subFs(''Downloads/sub/b.txt'' \<mapsto> Regular []))"
    by (simp add: run_eval)
  have f: "isfile (subFs(''Downloads/sub/b.txt'' \<mapsto> Regular []))
      (pathJoin downloadsDir ''sub/b.txt'')"
    by (simp add: run_eval)
  have r: "resolve subFs (pathJoin downloadsDir ''sub/b.txt'') =
      Inr (False, [''Downloads'', ''sub'', ''b.txt''])"
    by (simp add: run_eval)
  have n: "CHR 0x00 \<notin> set (pathJoin uploadsDir ''sub/b.txt'')"
    by (simp add: run_eval)
  have h: "calculateFileHash lengthDigest
      (subFs(keyOf (False, [''Downloads'', ''sub'', ''b.txt'']) \<mapsto> Regular [6]))
      (pathJoin uploadsDir ''sub/b.txt'') = Inr (Some (lengthDigest [6]))"
    by (simp add: calculateFileHash_value [OF n]) (simp add: run_eval)
  have k: "keyOf (False, [''Downloads'', ''sub'', ''b.txt'']) = ''Downloads/sub/b.txt''"
    by (simp add: keyOf_def)
  show ?thesis
    using fetchFile_handler_created [where H = lengthDigest and dumps = sampleDumps
        and net = siteNet and loads = sampleLoads and served = siteFs and sizes = "[1]"
        and fs = subFs and filename = "''sub/b.txt''",
        OF parsePeer_local port_local siteNet_local o f r wire_nested] h k
    by simp
qed

lemma sample_empty_array: "sampleLoads (ascii ''[]'') = Inr (JArray [])"
  by code_simp

lemma sample_book:
  \<open>sampleLoads (ascii ''{"alice": "10.0.0.2:5000", "bob": "10.0.0.3:5000"}'') =
     Inr (JObject [(''alice'', JString ''10.0.0.2:5000''), (''bob'', JString ''10.0.0.3:5000'')])\<close>
  by code_simp

lemma sample_binary: "sampleLoads [255, 254] = Inl UnicodeDecodeError"
  by code_simp

section \<open>Downloads end to end\<close>

text \<open>
  Claim C1, as amended. Take a file of the served directory, a Handler that serves it
  and receives the client's request whole, a client whose downloads directory exists,
  and a client that holds in its own \<open>Uploads\<close> directory a reference copy with the
  same content (as it does when it downloads from its own node). Then the chunks the
  Handler sends concatenate to the file, the client's copy in the downloads directory
  has exactly the file's bytes however the transport cuts the stream, and the digest
  comparison reports success. Nothing is assumed about the size of the file: it may be
  empty, one chunk, or not a multiple of the chunk size.
\<close>

theorem download_roundtrip:
  assumes peer: "parsePeer peer = Inr (ipAddress, port)" "0 \<le> port" "port \<le> 65535"
    and net: "net ipAddress port = handlerPeer loads served sizes"
    and codec: "loads (take 1024 (dumps (clientRequest filename))) = Inr (clientRequest filename)"
    and name: "plainName filename"
    and served: "lookup served (pathJoin uploadsDir filename) = Some (Regular content)"
    and reference: "lookup fs (pathJoin uploadsDir filename) = Some (Regular content)"
    and dir: "lookup fs downloadsDir = Some Directory"
    and target: "lookup fs (pathJoin downloadsDir filename) = None \<or>
                 isfile fs (pathJoin downloadsDir filename)"
  shows "wire (snd (handleClient loads served (accepted (dumps (clientRequest filename))))) = content \<and>
         fetchFile H dumps net fs peer filename =
           ([Verified], fs(pathJoin downloadsDir filename \<mapsto> Regular content)) \<and>
         lookup (snd (fetchFile H dumps net fs peer filename)) (pathJoin downloadsDir filename) =
           Some (Regular content)"
proof -
  let ?t = "pathJoin downloadsDir filename"
  let ?u = "pathJoin uploadsDir filename"
  let ?w = "wire (snd (handleClient loads served (accepted (dumps (clientRequest filename)))))"
  let ?pl = "(False, [''Downloads'', filename])"
  have w: "?w = content"
    using handleClient_wire [where loads = loads and data = "dumps (clientRequest filename)"
        and fs = served, OF codec getitem_clientRequest] served
    by simp
  have nul: "CHR 0x00 \<notin> set filename"
    using served lookup_NUL [of ?u served] by (auto simp: pathJoin_NUL)
  have d: "fs ''Downloads'' = Some Directory"
    using dir by (simp add: lookup_dir)
  have ud: "fs ''Uploads'' = Some Directory"
    using reference nul by (simp add: lookup_upload [OF name] split: option.splits node.splits)
  have lt: "lookup fs ?t = fs ?t"
    using nul d by (simp add: lookup_download [OF name])
  have tg: "fs ?t = None \<or> (\<exists>c. fs ?t = Some (Regular c))"
    using target lt by (auto simp: isfile_def split: option.splits node.splits)
  have rel: "take 1 filename \<noteq> ''/''"
    using name by (rule plain_relative)
  have k: "keyOf ?pl = ?t"
    using rel by (rule keyOf_download)
  have i: "\<not> implicitPlace ?pl"
    by (simp add: implicitPlace_def)
  have r: "resolve fs ?t = Inr ?pl"
    using nul d by (simp add: resolve_download [OF name])
  have nd: "fs (keyOf ?pl) \<noteq> Some Directory"
    using tg k by auto
  have create: "openWrite fs ?t = Inr (fs(?t \<mapsto> Regular []))"
    using name nul d tg by (rule openWrite_plain)
  note c = recvLoop_created [OF r i nd]
  have f: "isfile (fs(?t \<mapsto> Regular [])) ?t"
    using c(2) [of "[]"] k by (simp add: isfile_def)
  have ru: "resolve fs ?u = Inr (False, [''Uploads'', filename])"
    using nul ud by (simp add: resolve_upload [OF name])
  have "lookup (fs(keyOf ?pl \<mapsto> Regular content)) ?u = fs ?u"
    using lookup_upd [where fs = fs and k = "keyOf ?pl" and v = "Regular content" and q = ?u, OF nd]
      ru k paths_differ [OF rel] keyOf_upload [OF rel]
    by (simp add: nodeAt_def implicitPlace_def)
  moreover have "lookup fs ?u = fs ?u"
    using nul ud by (simp add: lookup_upload [OF name])
  ultimately have lu: "lookup (fs(keyOf ?pl \<mapsto> Regular content)) ?u = Some (Regular content)"
    using reference by simp
  have nu: "CHR 0x00 \<notin> set ?u"
    using nul by (simp add: pathJoin_NUL)
  have h: "calculateFileHash H (fs(keyOf ?pl \<mapsto> Regular content)) ?u = Inr (Some (H content))"
    by (simp add: calculateFileHash_value [OF nu] lu)
  have v: "fetchFile H dumps net fs peer filename = ([Verified], fs(?t \<mapsto> Regular content))"
    using fetchFile_handler_created [where H = H and dumps = dumps and net = net
        and loads = loads and served = served and sizes = sizes and fs = fs
        and filename = filename, OF peer net create f r w] h k
    by simp
  have l: "lookup (fs(?t \<mapsto> Regular content)) ?t = Some (Regular content)"
    using c(2) [of content] k by simp
  from w v l show ?thesis by simp
qed

theorem download_roundtrip_witness:
  "plainName ''a.txt'' \<and>
   lookup servedFs (pathJoin uploadsDir ''a.txt'') = Some (Regular [1, 2, 3]) \<and>
   wire (snd (handleClient sampleLoads servedFs (accepted (sampleDumps (clientRequest ''a.txt''))))) =
     [1, 2, 3] \<and>
   fetchFile lengthDigest sampleDumps handlerNet servedFs (JString ''127.0.0.1:5000'') ''a.txt'' =
     ([Verified], servedFs(pathJoin downloadsDir ''a.txt'' \<mapsto> Regular [1, 2, 3])) \<and>
   lookup servedFs (pathJoin uploadsDir ''empty.txt'') = Some (Regular []) \<and>
   fetchFile lengthDigest sampleDumps handlerNet servedFs (JString ''127.0.0.1:5000'')
     ''empty.txt'' =
     ([Verified], servedFs(pathJoin downloadsDir ''empty.txt'' \<mapsto> Regular []))"
proof -
  have name: "plainName ''a.txt''" and name': "plainName ''empty.txt''"
    by (simp_all add: plainName_def)
  have served: "lookup servedFs (pathJoin uploadsDir ''a.txt'') = Some (Regular [1, 2, 3])"
    by (simp add: run_eval)
  have served': "lookup servedFs (pathJoin uploadsDir ''empty.txt'') = Some (Regular [])"
    by (simp add: run_eval)
  have dir: "lookup servedFs downloadsDir = Some Directory"
    by (simp add: run_eval)
  have target: "lookup servedFs (pathJoin downloadsDir ''a.txt'') = None \<or>
      isfile servedFs (pathJoin downloadsDir ''a.txt'')"
    by (simp add: run_eval)
  have target': "lookup servedFs (pathJoin downloadsDir ''empty.txt'') = None \<or>
      isfile servedFs (pathJoin downloadsDir ''empty.txt'')"
    by (simp add: run_eval)
  from name served served'
    download_roundtrip [where net = handlerNet and loads = sampleLoads and dumps = sampleDumps
      and H = lengthDigest, OF parsePeer_local port_local handlerNet_local sample_codec_a name
      served served dir target]
    download_roundtrip [where net = handlerNet and loads = sampleLoads and dumps = sampleDumps
      and H = lengthDigest, OF parsePeer_local port_local handlerNet_local sample_codec_empty
      name' served' served' dir target']
  show ?thesis by simp
qed

theorem download_without_reference_counterexample:
  "plainName ''a.txt'' \<and>
   lookup servedFs (pathJoin uploadsDir ''a.txt'') = Some (Regular [1, 2, 3]) \<and>
   fetchFile lengthDigest sampleDumps handlerNet bareFs (JString ''127.0.0.1:5000'') ''a.txt'' =
     ([VerificationFailed], bareFs) \<and>
   lookup bareFs (pathJoin downloadsDir ''a.txt'') = None"
proof -
  have "lookup servedFs (pathJoin uploadsDir ''a.txt'') = Some (Regular [1, 2, 3])"
    by (simp add: run_eval)
  moreover have "lookup bareFs (pathJoin downloadsDir ''a.txt'') = None"
    by (simp add: run_eval)
  ultimately show ?thesis
    using run_mismatch by (simp add: plainName_def)
qed

text \<open>
  Claim C4. A run of the Fetch Client that fails before the local file is open (the
  address does not parse, the connection or the send fails, the file cannot be opened)
  reports the error and leaves the file system as it was. Once the file is open the
  receive loop writes to it, and the file is there when the loop ends, holding the
  bytes received if it is a regular file. If receiving raised, the error is reported
  and the file system is the one the loop left, with the partly written file. If the
  two digests are equal, success is reported and the file is kept. If they differ, the
  verification failure is reported and the file is removed. So the file is deleted
  exactly when the digests differ.
\<close>

theorem cleanup_only_on_mismatch:
  "(\<forall>e. startTransfer dumps net fs peer filename = Inl e \<longrightarrow>
      fetchFile H dumps net fs peer filename = ([Failure e], fs)) \<and>
   (\<forall>rep opened r written.
      startTransfer dumps net fs peer filename = Inr (rep, opened) \<and>
      recvLoop (incoming rep) (pathJoin downloadsDir filename) opened = (r, written) \<longrightarrow>
        r = interrupted (incoming rep) \<and>
        lookup written (pathJoin downloadsDir filename) \<noteq> None \<and>
        (isfile opened (pathJoin downloadsDir filename) \<longrightarrow>
           lookup written (pathJoin downloadsDir filename) =
             Some (Regular (received (incoming rep)))) \<and>
        (\<forall>e. r = Some e \<longrightarrow> fetchFile H dumps net fs peer filename = ([Failure e], written)) \<and>
        (r = None \<and>
         calculateFileHash H written (pathJoin downloadsDir filename) =
         calculateFileHash H written (pathJoin uploadsDir filename) \<longrightarrow>
           fetchFile H dumps net fs peer filename = ([Verified], written)) \<and>
        (r = None \<and>
         calculateFileHash H written (pathJoin downloadsDir filename) \<noteq>
         calculateFileHash H written (pathJoin uploadsDir filename) \<longrightarrow>
           (\<exists>gone. removeFile written (pathJoin downloadsDir filename) = Inr gone \<and>
              lookup gone (pathJoin downloadsDir filename) = None \<and>
              fetchFile H dumps net fs peer filename = ([VerificationFailed], gone))))"
proof (intro conjI allI impI)
  fix e
  assume "startTransfer dumps net fs peer filename = Inl e"
  then show "fetchFile H dumps net fs peer filename = ([Failure e], fs)"
    by (simp add: fetchFile_startTransfer)
next
  fix rep opened r written
  assume a: "startTransfer dumps net fs peer filename = Inr (rep, opened) \<and>
      recvLoop (incoming rep) (pathJoin downloadsDir filename) opened = (r, written)"
  then have st: "startTransfer dumps net fs peer filename = Inr (rep, opened)"
    and rl: "recvLoop (incoming rep) (pathJoin downloadsDir filename) opened = (r, written)"
    by simp_all
  note f = fetchFile_opened [OF st rl]
  show "r = interrupted (incoming rep)"
    by (rule f(1))
  show "lookup written (pathJoin downloadsDir filename) \<noteq> None"
    using f(2) by (rule writable_lookup)
  {
    assume i: "isfile opened (pathJoin downloadsDir filename)"
    from fetchFile_created [OF st i, of H] rl
    show "lookup written (pathJoin downloadsDir filename) =
        Some (Regular (received (incoming rep)))"
      by auto
  }
  {
    fix e
    assume "r = Some e"
    then show "fetchFile H dumps net fs peer filename = ([Failure e], written)"
      by (rule f(3))
  }
  {
    assume e: "r = None \<and>
         calculateFileHash H written (pathJoin downloadsDir filename) =
         calculateFileHash H written (pathJoin uploadsDir filename)"
    then have "fetchFile H dumps net fs peer filename =
        verifyDownload H written filename (pathJoin downloadsDir filename)"
      using f(4) by simp
    with verifyDownload_writable(1) [OF f(2), of H] e
    show "fetchFile H dumps net fs peer filename = ([Verified], written)"
      by simp
  }
  {
    assume e: "r = None \<and>
         calculateFileHash H written (pathJoin downloadsDir filename) \<noteq>
         calculateFileHash H written (pathJoin uploadsDir filename)"
    then have "fetchFile H dumps net fs peer filename =
        verifyDownload H written filename (pathJoin downloadsDir filename)"
      using f(4) by simp
    with verifyDownload_writable(2) [OF f(2), of H] e
    show "\<exists>gone. removeFile written (pathJoin downloadsDir filename) = Inr gone \<and>
        lookup gone (pathJoin downloadsDir filename) = None \<and>
        fetchFile H dumps net fs peer filename = ([VerificationFailed], gone)"
      by simp
  }
qed

theorem cleanup_only_on_mismatch_witness:
  "fetchFile lengthDigest sampleDumps refusingNet bareFs (JString ''127.0.0.1:5000'') ''a.txt'' =
     ([Failure ConnectionRefusedError], bareFs) \<and>
   fetchFile lengthDigest sampleDumps brokenNet bareFs (JString ''127.0.0.1:5000'') ''a.txt'' =
     ([Failure ConnectionResetError], bareFs(''Downloads/a.txt'' \<mapsto> Regular [1, 2])) \<and>
   lookup (bareFs(''Downloads/a.txt'' \<mapsto> Regular [1, 2])) (pathJoin downloadsDir ''a.txt'') =
     Some (Regular [1, 2]) \<and>
   fetchFile lengthDigest sampleDumps handlerNet servedFs (JString ''127.0.0.1:5000'') ''a.txt'' =
     ([Verified], servedFs(''Downloads/a.txt'' \<mapsto> Regular [1, 2, 3])) \<and>
   lookup (servedFs(''Downloads/a.txt'' \<mapsto> Regular [1, 2, 3])) (pathJoin downloadsDir ''a.txt'') =
     Some (Regular [1, 2, 3]) \<and>
   fetchFile lengthDigest sampleDumps handlerNet bareFs (JString ''127.0.0.1:5000'') ''a.txt'' =
     ([VerificationFailed], bareFs) \<and>
   lookup bareFs (pathJoin downloadsDir ''a.txt'') = None"
proof -
  let ?P = "JString ''127.0.0.1:5000''"
  let ?t = "pathJoin downloadsDir ''a.txt''"
  let ?u = "pathJoin uploadsDir ''a.txt''"
  let ?rep = "respond (handlerPeer sampleLoads servedFs [2]) (sampleDumps (clientRequest ''a.txt''))"
  let ?brk = "\<lparr>sendError = None, incoming = [Inr [1, 2], Inl ConnectionResetError]\<rparr>"
  have nt: "CHR 0x00 \<notin> set ?t" and nu: "CHR 0x00 \<notin> set ?u"
    by (simp_all add: run_eval)
  have ob: "openWrite bareFs ?t = Inr (bareFs(''Downloads/a.txt'' \<mapsto> Regular []))"
    by (simp add: run_eval)
  have os: "openWrite servedFs ?t = Inr (servedFs(''Downloads/a.txt'' \<mapsto> Regular []))"
    by (simp add: run_eval)
  have rb: "resolve bareFs ?t = Inr (False, [''Downloads'', ''a.txt''])"
    and rs: "resolve servedFs ?t = Inr (False, [''Downloads'', ''a.txt''])"
    by (simp_all add: run_eval)
  have k: "keyOf (False, [''Downloads'', ''a.txt'']) = ''Downloads/a.txt''"
    and i: "\<not> implicitPlace (False, [''Downloads'', ''a.txt''])"
    by (simp_all add: keyOf_def implicitPlace_def)
  have db: "bareFs (keyOf (False, [''Downloads'', ''a.txt''])) \<noteq> Some Directory"
    and ds: "servedFs (keyOf (False, [''Downloads'', ''a.txt''])) \<noteq> Some Directory"
    by (simp_all add: k bareFs_def servedFs_def)
  note cb = recvLoop_created [OF rb i db, unfolded k]
  note cs = recvLoop_created [OF rs i ds, unfolded k]
  have fb: "isfile (bareFs(''Downloads/a.txt'' \<mapsto> Regular [])) ?t"
    and fs: "isfile (servedFs(''Downloads/a.txt'' \<mapsto> Regular [])) ?t"
    by (simp_all add: isfile_def cb(2) cs(2))
  have s1: "startTransfer sampleDumps refusingNet bareFs ?P ''a.txt'' = Inl ConnectionRefusedError"
    by (simp add: startTransfer_def parsePeer_local connect_def refusingNet_def)
  have s2: "startTransfer sampleDumps brokenNet bareFs ?P ''a.txt'' =
      Inr (?brk, bareFs(''Downloads/a.txt'' \<mapsto> Regular []))"
    by (simp add: startTransfer_def parsePeer_local connect_def brokenNet_def ob)
  have l2: "recvLoop (incoming ?brk) ?t (bareFs(''Downloads/a.txt'' \<mapsto> Regular [])) =
      (Some ConnectionResetError, bareFs(''Downloads/a.txt'' \<mapsto> Regular [1, 2]))"
    by (simp add: cb(1))
  have s3: "startTransfer sampleDumps handlerNet servedFs ?P ''a.txt'' =
      Inr (?rep, servedFs(''Downloads/a.txt'' \<mapsto> Regular []))"
    using startTransfer_handler [where dumps = sampleDumps and fs = servedFs
        and filename = "''a.txt''" and net = handlerNet and loads = sampleLoads
        and served = servedFs and sizes = "[2]", OF parsePeer_local port_local handlerNet_local]
    by (simp add: os)
  have s4: "startTransfer sampleDumps handlerNet bareFs ?P ''a.txt'' =
      Inr (?rep, bareFs(''Downloads/a.txt'' \<mapsto> Regular []))"
    using startTransfer_handler [where dumps = sampleDumps and fs = bareFs
        and filename = "''a.txt''" and net = handlerNet and loads = sampleLoads
        and served = servedFs and sizes = "[2]", OF parsePeer_local port_local handlerNet_local]
    by (simp add: ob)
  have rc: "received (incoming ?rep) = [1, 2, 3]"
    by (simp add: handler_received wire_a)
  have ir: "interrupted (incoming ?rep) = None"
    by (rule handler_interrupted)
  have l3: "recvLoop (incoming ?rep) ?t (servedFs(''Downloads/a.txt'' \<mapsto> Regular [])) =
      (None, servedFs(''Downloads/a.txt'' \<mapsto> Regular [1, 2, 3]))"
    by (simp add: cs(1) rc ir)
  have l4: "recvLoop (incoming ?rep) ?t (bareFs(''Downloads/a.txt'' \<mapsto> Regular [])) =
      (None, bareFs(''Downloads/a.txt'' \<mapsto> Regular [1, 2, 3]))"
    by (simp add: cb(1) rc ir)
  have e3: "calculateFileHash lengthDigest (servedFs(''Downloads/a.txt'' \<mapsto> Regular [1, 2, 3])) ?t =
      calculateFileHash lengthDigest (servedFs(''Downloads/a.txt'' \<mapsto> Regular [1, 2, 3])) ?u"
    by (simp add: calculateFileHash_value [OF nt] calculateFileHash_value [OF nu])
       (simp add: run_eval)
  have e4: "calculateFileHash lengthDigest (bareFs(''Downloads/a.txt'' \<mapsto> Regular [1, 2, 3])) ?t \<noteq>
      calculateFileHash lengthDigest (bareFs(''Downloads/a.txt'' \<mapsto> Regular [1, 2, 3])) ?u"
    by (simp add: calculateFileHash_value [OF nt] calculateFileHash_value [OF nu])
       (simp add: run_eval)
  have rm: "removeFile (bareFs(''Downloads/a.txt'' \<mapsto> Regular [1, 2, 3])) ?t = Inr bareFs"
    by (simp add: run_eval)
  note t1 = cleanup_only_on_mismatch [where dumps = sampleDumps and net = refusingNet
      and fs = bareFs and peer = ?P and filename = "''a.txt''" and H = lengthDigest]
  note t2 = cleanup_only_on_mismatch [where dumps = sampleDumps and net = brokenNet
      and fs = bareFs and peer = ?P and filename = "''a.txt''" and H = lengthDigest]
  note t3 = cleanup_only_on_mismatch [where dumps = sampleDumps and net = handlerNet
      and fs = servedFs and peer = ?P and filename = "''a.txt''" and H = lengthDigest]
  note t4 = cleanup_only_on_mismatch [where dumps = sampleDumps and net = handlerNet
      and fs = bareFs and peer = ?P and filename = "''a.txt''" and H = lengthDigest]
  from t1 s1 have one:
    "fetchFile lengthDigest sampleDumps refusingNet bareFs ?P ''a.txt'' =
       ([Failure ConnectionRefusedError], bareFs)"
    by blast
  from t2 s2 l2 have two:
    "fetchFile lengthDigest sampleDumps brokenNet bareFs ?P ''a.txt'' =
       ([Failure ConnectionResetError], bareFs(''Downloads/a.txt'' \<mapsto> Regular [1, 2]))"
    by blast
  from t2 s2 l2 fb have "lookup (bareFs(''Downloads/a.txt'' \<mapsto> Regular [1, 2])) ?t =
      Some (Regular (received (incoming ?brk)))"
    by blast
  then have three: "lookup (bareFs(''Downloads/a.txt'' \<mapsto> Regular [1, 2])) ?t =
      Some (Regular [1, 2])"
    by simp
  from t3 s3 l3 e3 have four:
    "fetchFile lengthDigest sampleDumps handlerNet servedFs ?P ''a.txt'' =
       ([Verified], servedFs(''Downloads/a.txt'' \<mapsto> Regular [1, 2, 3]))"
    by blast
  from t3 s3 l3 fs have "lookup (servedFs(''Downloads/a.txt'' \<mapsto> Regular [1, 2, 3])) ?t =
      Some (Regular (received (incoming ?rep)))"
    by blast
  with rc have five: "lookup (servedFs(''Downloads/a.txt'' \<mapsto> Regular [1, 2, 3])) ?t =
      Some (Regular [1, 2, 3])"
    by simp
  from t4 s4 l4 e4 have "\<exists>gone.
      removeFile (bareFs(''Downloads/a.txt'' \<mapsto> Regular [1, 2, 3])) ?t = Inr gone \<and>
      lookup gone ?t = None \<and>
      fetchFile lengthDigest sampleDumps handlerNet bareFs ?P ''a.txt'' =
        ([VerificationFailed], gone)"
    by blast
  with rm have six:
    "fetchFile lengthDigest sampleDumps handlerNet bareFs ?P ''a.txt'' =
       ([VerificationFailed], bareFs)"
    and seven: "lookup bareFs ?t = None"
    by auto
  from one two three four five six seven show ?thesis
    by simp
qed

text \<open>
  Claim C2, as amended. Take a file name that names nothing in the served directory,
  and a Handler that receives the request whole. The Handler sends no bytes and the
  client receives none. The client has no outcome for a missing file; what it reports
  depends on its own file system. If it cannot open the local file it reports that
  error. Otherwise nothing is written to the file it opened, and the digest of that
  file is compared with the digest of the path of the same name under the client's own
  \<open>Uploads\<close> directory: if they differ, as they do when that path names nothing, the
  client reports a verification failure and removes the local file; if they are equal,
  as they are when both paths name the same file, it reports success and keeps it.
\<close>

theorem missing_file_outcome:
  assumes peer: "parsePeer peer = Inr (ipAddress, port)" "0 \<le> port" "port \<le> 65535"
    and net: "net ipAddress port = handlerPeer loads served sizes"
    and codec: "loads (take 1024 (dumps (clientRequest filename))) = Inr (clientRequest filename)"
    and missing: "\<not> pathExists served (pathJoin uploadsDir filename)"
  shows "wire (snd (handleClient loads served (accepted (dumps (clientRequest filename))))) = [] \<and>
     received (incoming (respond (handlerPeer loads served sizes)
       (dumps (clientRequest filename)))) = [] \<and>
     (\<forall>e. openWrite fs (pathJoin downloadsDir filename) = Inl e \<longrightarrow>
        fetchFile H dumps net fs peer filename = ([Failure e], fs)) \<and>
     (\<forall>opened. openWrite fs (pathJoin downloadsDir filename) = Inr opened \<longrightarrow>
        (isfile opened (pathJoin downloadsDir filename) \<longrightarrow>
           lookup opened (pathJoin downloadsDir filename) = Some (Regular [])) \<and>
        (calculateFileHash H opened (pathJoin downloadsDir filename) \<noteq>
         calculateFileHash H opened (pathJoin uploadsDir filename) \<longrightarrow>
           (\<exists>gone. removeFile opened (pathJoin downloadsDir filename) = Inr gone \<and>
              lookup gone (pathJoin downloadsDir filename) = None \<and>
              fetchFile H dumps net fs peer filename = ([VerificationFailed], gone))) \<and>
        (calculateFileHash H opened (pathJoin downloadsDir filename) =
         calculateFileHash H opened (pathJoin uploadsDir filename) \<longrightarrow>
           fetchFile H dumps net fs peer filename = ([Verified], opened)) \<and>
        (\<not> pathExists opened (pathJoin uploadsDir filename) \<longrightarrow>
           calculateFileHash H opened (pathJoin downloadsDir filename) \<noteq>
           calculateFileHash H opened (pathJoin uploadsDir filename)) \<and>
        (resolve opened (pathJoin uploadsDir filename) =
         resolve opened (pathJoin downloadsDir filename) \<longrightarrow>
           calculateFileHash H opened (pathJoin downloadsDir filename) =
           calculateFileHash H opened (pathJoin uploadsDir filename)))"
proof -
  let ?t = "pathJoin downloadsDir filename"
  let ?u = "pathJoin uploadsDir filename"
  let ?rep = "respond (handlerPeer loads served sizes) (dumps (clientRequest filename))"
  have w: "wire (snd (handleClient loads served (accepted (dumps (clientRequest filename))))) = []"
    using handleClient_wire [where loads = loads and data = "dumps (clientRequest filename)"
        and fs = served, OF codec getitem_clientRequest] missing
    by (simp add: pathExists_def)
  have rc: "received (incoming ?rep) = []"
    using w by (simp add: handler_received)
  have inc: "incoming ?rep = []"
    using w by (simp add: handler_incoming) (subst pieces.simps, simp)
  note st = startTransfer_handler [where dumps = dumps and fs = fs and filename = filename
      and net = net and loads = loads and served = served and sizes = sizes, OF peer net]
  have fail: "\<forall>e. openWrite fs ?t = Inl e \<longrightarrow>
      fetchFile H dumps net fs peer filename = ([Failure e], fs)"
    by (simp add: fetchFile_startTransfer st)
  have ok: "\<forall>opened. openWrite fs ?t = Inr opened \<longrightarrow>
        (isfile opened ?t \<longrightarrow> lookup opened ?t = Some (Regular [])) \<and>
        (calculateFileHash H opened ?t \<noteq> calculateFileHash H opened ?u \<longrightarrow>
           (\<exists>gone. removeFile opened ?t = Inr gone \<and> lookup gone ?t = None \<and>
              fetchFile H dumps net fs peer filename = ([VerificationFailed], gone))) \<and>
        (calculateFileHash H opened ?t = calculateFileHash H opened ?u \<longrightarrow>
           fetchFile H dumps net fs peer filename = ([Verified], opened)) \<and>
        (\<not> pathExists opened ?u \<longrightarrow>
           calculateFileHash H opened ?t \<noteq> calculateFileHash H opened ?u) \<and>
        (resolve opened ?u = resolve opened ?t \<longrightarrow>
           calculateFileHash H opened ?t = calculateFileHash H opened ?u)"
  proof (intro allI impI)
    fix opened
    assume o: "openWrite fs ?t = Inr opened"
    then have wr: "writable opened ?t"
      by (rule openWrite_writable)
    have nt: "CHR 0x00 \<notin> set ?t"
      using wr by (rule writable_NUL)
    then have nu: "CHR 0x00 \<notin> set ?u"
      by (simp add: pathJoin_NUL)
    have f: "fetchFile H dumps net fs peer filename = verifyDownload H opened filename ?t"
      by (simp add: fetchFile_startTransfer st o inc)
    have one: "isfile opened ?t \<longrightarrow> lookup opened ?t = Some (Regular [])"
    proof
      assume i: "isfile opened ?t"
      from o i obtain pl where r: "resolve fs ?t = Inr pl" and ip: "\<not> implicitPlace pl"
        and d: "fs (keyOf pl) \<noteq> Some Directory" and op: "opened = fs(keyOf pl \<mapsto> Regular [])"
        by (rule opened_regular)
      show "lookup opened ?t = Some (Regular [])"
        unfolding op by (rule recvLoop_created(2) [OF r ip d])
    qed
    have two: "calculateFileHash H opened ?t \<noteq> calculateFileHash H opened ?u \<longrightarrow>
        (\<exists>gone. removeFile opened ?t = Inr gone \<and> lookup gone ?t = None \<and>
           fetchFile H dumps net fs peer filename = ([VerificationFailed], gone))"
      using verifyDownload_writable(2) [OF wr, of H] f by simp
    have three: "calculateFileHash H opened ?t = calculateFileHash H opened ?u \<longrightarrow>
        fetchFile H dumps net fs peer filename = ([Verified], opened)"
      using verifyDownload_writable(1) [OF wr, of H] f by simp
    have four: "\<not> pathExists opened ?u \<longrightarrow>
        calculateFileHash H opened ?t \<noteq> calculateFileHash H opened ?u"
    proof
      assume "\<not> pathExists opened ?u"
      then have "calculateFileHash H opened ?u = Inr None"
        by (simp add: calculateFileHash_value [OF nu] pathExists_def)
      with calculateFileHash_writable(1) [OF wr, of H]
      show "calculateFileHash H opened ?t \<noteq> calculateFileHash H opened ?u"
        by auto
    qed
    have five: "resolve opened ?u = resolve opened ?t \<longrightarrow>
        calculateFileHash H opened ?t = calculateFileHash H opened ?u"
    proof
      assume "resolve opened ?u = resolve opened ?t"
      then have "lookup opened ?u = lookup opened ?t"
        by (simp add: lookup_def)
      then show "calculateFileHash H opened ?t = calculateFileHash H opened ?u"
        by (simp add: calculateFileHash_value [OF nu] calculateFileHash_value [OF nt])
    qed
    from one two three four five
    show "(isfile opened ?t \<longrightarrow> lookup opened ?t = Some (Regular [])) \<and>
        (calculateFileHash H opened ?t \<noteq> calculateFileHash H opened ?u \<longrightarrow>
           (\<exists>gone. removeFile opened ?t = Inr gone \<and> lookup gone ?t = None \<and>
              fetchFile H dumps net fs peer filename = ([VerificationFailed], gone))) \<and>
        (calculateFileHash H opened ?t = calculateFileHash H opened ?u \<longrightarrow>
           fetchFile H dumps net fs peer filename = ([Verified], opened)) \<and>
        (\<not> pathExists opened ?u \<longrightarrow>
           calculateFileHash H opened ?t \<noteq> calculateFileHash H opened ?u) \<and>
        (resolve opened ?u = resolve opened ?t \<longrightarrow>
           calculateFileHash H opened ?t = calculateFileHash H opened ?u)"
      by blast
  qed
  from w rc fail ok show ?thesis
    by blast
qed

theorem missing_file_outcome_witness:
  "\<not> pathExists servedFs (pathJoin uploadsDir ''missing.txt'') \<and>
   wire (snd (handleClient sampleLoads servedFs
     (accepted (sampleDumps (clientRequest ''missing.txt''))))) = [] \<and>
   fetchFile lengthDigest sampleDumps handlerNet servedFs (JString ''127.0.0.1:5000'')
     ''missing.txt'' = ([VerificationFailed], servedFs) \<and>
   \<not> pathExists servedFs (pathJoin uploadsDir ''../a.txt'') \<and>
   fetchFile lengthDigest sampleDumps handlerNet servedFs (JString ''127.0.0.1:5000'')
     ''../a.txt'' = ([Verified], servedFs(''a.txt'' \<mapsto> Regular [])) \<and>
   \<not> pathExists servedFs (pathJoin uploadsDir ''sub/x'') \<and>
   fetchFile lengthDigest sampleDumps handlerNet bareFs (JString ''127.0.0.1:5000'')
     ''sub/x'' = ([Failure FileNotFoundError], bareFs)"
proof -
  let ?P = "JString ''127.0.0.1:5000''"
  have m1: "\<not> pathExists servedFs (pathJoin uploadsDir ''missing.txt'')"
    and m2: "\<not> pathExists servedFs (pathJoin uploadsDir ''../a.txt'')"
    and m3: "\<not> pathExists servedFs (pathJoin uploadsDir ''sub/x'')"
    by (simp_all add: run_eval)
  note t1 = missing_file_outcome [where net = handlerNet and loads = sampleLoads
      and dumps = sampleDumps and H = lengthDigest and fs = servedFs,
      OF parsePeer_local port_local handlerNet_local sample_codec_missing m1]
  note t2 = missing_file_outcome [where net = handlerNet and loads = sampleLoads
      and dumps = sampleDumps and H = lengthDigest and fs = servedFs,
      OF parsePeer_local port_local handlerNet_local sample_codec_outside m2]
  note t3 = missing_file_outcome [where net = handlerNet and loads = sampleLoads
      and dumps = sampleDumps and H = lengthDigest and fs = bareFs,
      OF parsePeer_local port_local handlerNet_local sample_codec_nodir m3]
  have o1: "openWrite servedFs (pathJoin downloadsDir ''missing.txt'') =
      Inr (servedFs(''Downloads/missing.txt'' \<mapsto> Regular []))"
    by (simp add: run_eval)
  have n1: "\<not> pathExists (servedFs(''Downloads/missing.txt'' \<mapsto> Regular []))
      (pathJoin uploadsDir ''missing.txt'')"
    by (simp add: run_eval)
  have r1: "removeFile (servedFs(''Downloads/missing.txt'' \<mapsto> Regular []))
      (pathJoin downloadsDir ''missing.txt'') = Inr servedFs"
    by (simp add: run_eval)
  from t1 have w: "wire (snd (handleClient sampleLoads servedFs
      (accepted (sampleDumps (clientRequest ''missing.txt''))))) = []"
    by blast
  from t1 o1 n1 have "\<exists>gone.
      removeFile (servedFs(''Downloads/missing.txt'' \<mapsto> Regular []))
        (pathJoin downloadsDir ''missing.txt'') = Inr gone \<and>
      lookup gone (pathJoin downloadsDir ''missing.txt'') = None \<and>
      fetchFile lengthDigest sampleDumps handlerNet servedFs ?P ''missing.txt'' =
        ([VerificationFailed], gone)"
    by blast
  with r1 have one: "fetchFile lengthDigest sampleDumps handlerNet servedFs ?P ''missing.txt'' =
      ([VerificationFailed], servedFs)"
    by auto
  have o2: "openWrite servedFs (pathJoin downloadsDir ''../a.txt'') =
      Inr (servedFs(''a.txt'' \<mapsto> Regular []))"
    by (simp add: run_eval)
  have e2: "resolve (servedFs(''a.txt'' \<mapsto> Regular [])) (pathJoin uploadsDir ''../a.txt'') =
      resolve (servedFs(''a.txt'' \<mapsto> Regular [])) (pathJoin downloadsDir ''../a.txt'')"
    by (simp add: run_eval)
  from t2 o2 e2 have two: "fetchFile lengthDigest sampleDumps handlerNet servedFs ?P ''../a.txt'' =
      ([Verified], servedFs(''a.txt'' \<mapsto> Regular []))"
    by blast
  have o3: "openWrite bareFs (pathJoin downloadsDir ''sub/x'') = Inl FileNotFoundError"
    by (simp add: run_eval)
  from t3 o3 have three: "fetchFile lengthDigest sampleDumps handlerNet bareFs ?P ''sub/x'' =
      ([Failure FileNotFoundError], bareFs)"
    by blast
  from m1 m2 m3 w one two three show ?thesis
    by simp
qed

theorem not_found_reported_as_mismatch_counterexample:
  "\<not> pathExists servedFs (pathJoin uploadsDir ''missing.txt'') \<and>
   wire (snd (handleClient sampleLoads servedFs
     (accepted (sampleDumps (clientRequest ''missing.txt''))))) = [] \<and>
   fetchFile lengthDigest sampleDumps handlerNet servedFs (JString ''127.0.0.1:5000'')
     ''missing.txt'' = ([VerificationFailed], servedFs)"
proof -
  have "\<not> pathExists servedFs (pathJoin uploadsDir ''missing.txt'')"
    by (simp add: run_eval)
  with wire_missing run_missing show ?thesis
    by simp
qed

section \<open>The write target and the address book\<close>

text \<open>
  Claim C9, as amended. The Fetch Client opens for writing the path obtained by joining
  the downloads directory with the file name as typed, with no check before the join.
  When the connection is made and a regular file is opened there, the bytes received
  are written to the place that path resolves to: that file holds exactly the received
  stream when the loop ends, its digest is the one compared, and the run ends with that
  file in place (after an error while receiving, or on equal digests) or removed (on a
  mismatch); no other path of the file system changes. For a file name \<open>../n\<close> the
  place is \<open>n\<close> beside the downloads directory, outside it. For an absolute file
  name the joined path is the file name itself, and the place is the one the file name
  reaches from the root. It is not so that every name with a separator or a parent
  reference leaves the downloads directory.
\<close>

theorem download_target_unguarded:
  "(\<forall>rep opened.
      startTransfer dumps net fs peer filename = Inr (rep, opened) \<and>
      isfile opened (pathJoin downloadsDir filename) \<longrightarrow>
      (\<exists>pl. resolve fs (pathJoin downloadsDir filename) = Inr pl \<and>
         opened = fs(keyOf pl \<mapsto> Regular []) \<and>
         recvLoop (incoming rep) (pathJoin downloadsDir filename) opened =
           (interrupted (incoming rep), fs(keyOf pl \<mapsto> Regular (received (incoming rep)))) \<and>
         calculateFileHash H (fs(keyOf pl \<mapsto> Regular (received (incoming rep))))
           (pathJoin downloadsDir filename) = Inr (Some (H (received (incoming rep)))) \<and>
         fetchFile H dumps net fs peer filename =
           (case interrupted (incoming rep) of
              Some e \<Rightarrow> ([Failure e], fs(keyOf pl \<mapsto> Regular (received (incoming rep))))
            | None \<Rightarrow>
                if calculateFileHash H (fs(keyOf pl \<mapsto> Regular (received (incoming rep))))
                     (pathJoin uploadsDir filename) = Inr (Some (H (received (incoming rep))))
                then ([Verified], fs(keyOf pl \<mapsto> Regular (received (incoming rep))))
                else ([VerificationFailed], fs(keyOf pl := None))) \<and>
         (\<forall>k. k \<noteq> keyOf pl \<longrightarrow> snd (fetchFile H dumps net fs peer filename) k = fs k) \<and>
         (\<forall>n. plainName n \<and> filename = ''../'' @ n \<longrightarrow>
            pl = (False, [n]) \<and> keyOf pl = n \<and> \<not> insideDir downloadsDir n) \<and>
         (take 1 filename = ''/'' \<longrightarrow> resolve fs filename = Inr pl \<and> fst pl))) \<and>
   (take 1 filename = ''/'' \<longrightarrow> pathJoin downloadsDir filename = filename)"
proof (intro conjI allI impI)
  fix rep opened
  assume a: "startTransfer dumps net fs peer filename = Inr (rep, opened) \<and>
      isfile opened (pathJoin downloadsDir filename)"
  then have st: "startTransfer dumps net fs peer filename = Inr (rep, opened)"
    and i: "isfile opened (pathJoin downloadsDir filename)"
    by simp_all
  let ?t = "pathJoin downloadsDir filename"
  let ?u = "pathJoin uploadsDir filename"
  let ?b = "received (incoming rep)"
  from fetchFile_created [OF st i, of H]
  obtain pl where r: "resolve fs ?t = Inr pl"
    and op: "opened = fs(keyOf pl \<mapsto> Regular [])"
    and rl: "recvLoop (incoming rep) ?t opened =
        (interrupted (incoming rep), fs(keyOf pl \<mapsto> Regular ?b))"
    and h: "calculateFileHash H (fs(keyOf pl \<mapsto> Regular ?b)) ?t = Inr (Some (H ?b))"
    and f: "fetchFile H dumps net fs peer filename =
       (case interrupted (incoming rep) of
          Some e \<Rightarrow> ([Failure e], fs(keyOf pl \<mapsto> Regular ?b))
        | None \<Rightarrow>
            if calculateFileHash H (fs(keyOf pl \<mapsto> Regular ?b)) ?u = Inr (Some (H ?b))
            then ([Verified], fs(keyOf pl \<mapsto> Regular ?b))
            else ([VerificationFailed], fs(keyOf pl := None)))"
    by blast
  have frame: "\<forall>k. k \<noteq> keyOf pl \<longrightarrow> snd (fetchFile H dumps net fs peer filename) k = fs k"
    by (simp add: f split: option.splits)
  have parent: "\<forall>n. plainName n \<and> filename = ''../'' @ n \<longrightarrow>
      pl = (False, [n]) \<and> keyOf pl = n \<and> \<not> insideDir downloadsDir n"
  proof (intro allI impI)
    fix n
    assume n: "plainName n \<and> filename = ''../'' @ n"
    then have p: "plainName n" and fn: "filename = ''../'' @ n"
      by simp_all
    from r fn have "resolve fs (pathJoin downloadsDir (CHR ''.'' # CHR ''.'' # CHR ''/'' # n)) = Inr pl"
      by simp
    then have pl: "pl = (False, [n])"
      by (auto simp: resolve_parent [OF p] split: if_splits option.splits node.splits)
    from p have "n \<noteq> []"
      by (simp add: plainName_def)
    then have "keyOf (False, [n]) = n"
      by (rule keyOf_single)
    with pl plain_outside [OF p]
    show "pl = (False, [n]) \<and> keyOf pl = n \<and> \<not> insideDir downloadsDir n"
      by simp
  qed
  have absolute: "take 1 filename = ''/'' \<longrightarrow> resolve fs filename = Inr pl \<and> fst pl"
  proof
    assume a: "take 1 filename = ''/''"
    then have j: "?t = filename"
      by (simp add: pathJoin_def)
    from r j have "resolve fs filename = Inr pl"
      by simp
    with resolve_fst [of fs filename pl] a
    show "resolve fs filename = Inr pl \<and> fst pl"
      by simp
  qed
  from r op rl h f frame parent absolute
  show "\<exists>pl. resolve fs ?t = Inr pl \<and>
         opened = fs(keyOf pl \<mapsto> Regular []) \<and>
         recvLoop (incoming rep) ?t opened =
           (interrupted (incoming rep), fs(keyOf pl \<mapsto> Regular ?b)) \<and>
         calculateFileHash H (fs(keyOf pl \<mapsto> Regular ?b)) ?t = Inr (Some (H ?b)) \<and>
         fetchFile H dumps net fs peer filename =
           (case interrupted (incoming rep) of
              Some e \<Rightarrow> ([Failure e], fs(keyOf pl \<mapsto> Regular ?b))
            | None \<Rightarrow>
                if calculateFileHash H (fs(keyOf pl \<mapsto> Regular ?b)) ?u = Inr (Some (H ?b))
                then ([Verified], fs(keyOf pl \<mapsto> Regular ?b))
                else ([VerificationFailed], fs(keyOf pl := None))) \<and>
         (\<forall>k. k \<noteq> keyOf pl \<longrightarrow> snd (fetchFile H dumps net fs peer filename) k = fs k) \<and>
         (\<forall>n. plainName n \<and> filename = ''../'' @ n \<longrightarrow>
            pl = (False, [n]) \<and> keyOf pl = n \<and> \<not> insideDir downloadsDir n) \<and>
         (take 1 filename = ''/'' \<longrightarrow> resolve fs filename = Inr pl \<and> fst pl)"
    by blast
next
  assume "take 1 filename = ''/''"
  then show "pathJoin downloadsDir filename = filename"
    by (simp add: pathJoin_def)
qed

theorem download_target_unguarded_witness:
  "plainName ''notes.txt'' \<and>
   lookup siteFs (pathJoin uploadsDir ''../notes.txt'') = Some (Regular [4, 5]) \<and>
   fetchFile lengthDigest sampleDumps siteNet bareFs (JString ''127.0.0.1:5000'')
     ''../notes.txt'' = ([Verified], bareFs(''notes.txt'' \<mapsto> Regular [4, 5])) \<and>
   \<not> insideDir downloadsDir ''notes.txt'' \<and>
   lookup siteFs (pathJoin uploadsDir ''/srv/c.txt'') = Some (Regular [9]) \<and>
   pathJoin downloadsDir ''/srv/c.txt'' = ''/srv/c.txt'' \<and>
   fetchFile lengthDigest sampleDumps siteNet srvFs (JString ''127.0.0.1:5000'')
     ''/srv/c.txt'' = ([Verified], srvFs(''/srv/c.txt'' \<mapsto> Regular [9]))"
proof -
  let ?P = "JString ''127.0.0.1:5000''"
  let ?t = "pathJoin downloadsDir ''../notes.txt''"
  let ?u = "pathJoin uploadsDir ''../notes.txt''"
  let ?rep = "respond (handlerPeer sampleLoads siteFs [1])
      (sampleDumps (clientRequest ''../notes.txt''))"
  have p: "plainName ''notes.txt''"
    by (simp add: plainName_def)
  have sv: "lookup siteFs ?u = Some (Regular [4, 5])"
    by (simp add: run_eval)
  have o: "openWrite bareFs ?t = Inr (bareFs(''notes.txt'' \<mapsto> Regular []))"
    by (simp add: run_eval)
  have f: "isfile (bareFs(''notes.txt'' \<mapsto> Regular [])) ?t"
    by (simp add: run_eval)
  have st: "startTransfer sampleDumps siteNet bareFs ?P ''../notes.txt'' =
      Inr (?rep, bareFs(''notes.txt'' \<mapsto> Regular []))"
    using startTransfer_handler [where dumps = sampleDumps and fs = bareFs
        and filename = "''../notes.txt''" and net = siteNet and loads = sampleLoads
        and served = siteFs and sizes = "[1]", OF parsePeer_local port_local siteNet_local]
    by (simp add: o)
  have rc: "received (incoming ?rep) = [4, 5]"
    by (simp add: handler_received wire_notes)
  have ir: "interrupted (incoming ?rep) = None"
    by (rule handler_interrupted)
  have nu: "CHR 0x00 \<notin> set ?u"
    by (simp add: run_eval)
  have h: "calculateFileHash lengthDigest (bareFs(''notes.txt'' \<mapsto> Regular [4, 5])) ?u =
      Inr (Some (lengthDigest [4, 5]))"
    by (simp add: calculateFileHash_value [OF nu]) (simp add: run_eval)
  have a: "take 1 ''/srv/c.txt'' = ''/''"
    by simp
  note t = download_target_unguarded [where dumps = sampleDumps and net = siteNet
      and fs = bareFs and peer = ?P and filename = "''../notes.txt''" and H = lengthDigest]
  from t st f obtain pl where
    ff: "fetchFile lengthDigest sampleDumps siteNet bareFs ?P ''../notes.txt'' =
           (case interrupted (incoming ?rep) of
              Some e \<Rightarrow> ([Failure e], bareFs(keyOf pl \<mapsto> Regular (received (incoming ?rep))))
            | None \<Rightarrow>
                if calculateFileHash lengthDigest
                     (bareFs(keyOf pl \<mapsto> Regular (received (incoming ?rep)))) ?u =
                   Inr (Some (lengthDigest (received (incoming ?rep))))
                then ([Verified], bareFs(keyOf pl \<mapsto> Regular (received (incoming ?rep))))
                else ([VerificationFailed], bareFs(keyOf pl := None)))"
    and pn: "\<forall>n. plainName n \<and> ''../notes.txt'' = ''../'' @ n \<longrightarrow>
            pl = (False, [n]) \<and> keyOf pl = n \<and> \<not> insideDir downloadsDir n"
    by blast
  from pn p have k: "keyOf pl = ''notes.txt''" and out: "\<not> insideDir downloadsDir ''notes.txt''"
    by auto
  have run: "fetchFile lengthDigest sampleDumps siteNet bareFs ?P ''../notes.txt'' =
      ([Verified], bareFs(''notes.txt'' \<mapsto> Regular [4, 5]))"
    using ff unfolding k rc ir by (simp add: h)
  let ?c = "''/srv/c.txt''"
  let ?rc = "respond (handlerPeer sampleLoads siteFs [1]) (sampleDumps (clientRequest ?c))"
  note ta = download_target_unguarded [where filename = ?c and dumps = sampleDumps
      and net = siteNet and fs = srvFs and peer = ?P and H = lengthDigest]
  have svc: "lookup siteFs (pathJoin uploadsDir ?c) = Some (Regular [9])"
    by (simp add: run_eval)
  from ta a have ab: "pathJoin downloadsDir ?c = ?c"
    by blast
  have oc: "openWrite srvFs (pathJoin downloadsDir ?c) = Inr (srvFs(?c \<mapsto> Regular []))"
    by (simp add: run_eval)
  have fc: "isfile (srvFs(?c \<mapsto> Regular [])) (pathJoin downloadsDir ?c)"
    by (simp add: run_eval)
  have stc: "startTransfer sampleDumps siteNet srvFs ?P ?c =
      Inr (?rc, srvFs(?c \<mapsto> Regular []))"
    using startTransfer_handler [where dumps = sampleDumps and fs = srvFs
        and filename = ?c and net = siteNet and loads = sampleLoads
        and served = siteFs and sizes = "[1]", OF parsePeer_local port_local siteNet_local]
    by (simp add: oc)
  have rcc: "received (incoming ?rc) = [9]"
    by (simp add: handler_received wire_absolute)
  have irc: "interrupted (incoming ?rc) = None"
    by (rule handler_interrupted)
  have nuc: "CHR 0x00 \<notin> set (pathJoin uploadsDir ?c)"
    by (simp add: run_eval)
  have hc: "calculateFileHash lengthDigest (srvFs(?c \<mapsto> Regular [9])) (pathJoin uploadsDir ?c) =
      Inr (Some (lengthDigest [9]))"
    by (simp add: calculateFileHash_value [OF nuc]) (simp add: run_eval)
  have rsc: "resolve srvFs ?c = Inr (True, [''srv'', ''c.txt''])"
    by (simp add: run_eval)
  have kc: "keyOf (True, [''srv'', ''c.txt'']) = ?c"
    by (simp add: keyOf_def)
  from ta stc fc obtain plc where
    ffc: "fetchFile lengthDigest sampleDumps siteNet srvFs ?P ?c =
           (case interrupted (incoming ?rc) of
              Some e \<Rightarrow> ([Failure e], srvFs(keyOf plc \<mapsto> Regular (received (incoming ?rc))))
            | None \<Rightarrow>
                if calculateFileHash lengthDigest
                     (srvFs(keyOf plc \<mapsto> Regular (received (incoming ?rc))))
                     (pathJoin uploadsDir ?c) =
                   Inr (Some (lengthDigest (received (incoming ?rc))))
                then ([Verified], srvFs(keyOf plc \<mapsto> Regular (received (incoming ?rc))))
                else ([VerificationFailed], srvFs(keyOf plc := None)))"
    and pa: "take 1 ?c = ''/'' \<longrightarrow> resolve srvFs ?c = Inr plc \<and> fst plc"
    by blast
  from pa a rsc have "plc = (True, [''srv'', ''c.txt''])"
    by simp
  with kc have kp: "keyOf plc = ?c"
    by simp
  have runc: "fetchFile lengthDigest sampleDumps siteNet srvFs ?P ?c =
      ([Verified], srvFs(?c \<mapsto> Regular [9]))"
    using ffc unfolding kp rcc irc by (simp add: hc)
  from p sv run out svc ab runc show ?thesis
    by simp
qed

theorem separator_inside_counterexample:
  "CHR ''/'' \<in> set ''sub/b.txt'' \<and>
   lookup siteFs (pathJoin uploadsDir ''sub/b.txt'') = Some (Regular [6]) \<and>
   fetchFile lengthDigest sampleDumps siteNet subFs (JString ''127.0.0.1:5000'') ''sub/b.txt'' =
     ([Verified], subFs(''Downloads/sub/b.txt'' \<mapsto> Regular [6])) \<and>
   insideDir downloadsDir ''Downloads/sub/b.txt'' \<and>
   resolve subFs (pathJoin downloadsDir ''sub/../c.txt'') = Inr (False, [''Downloads'', ''c.txt'']) \<and>
   keyOf (False, [''Downloads'', ''c.txt'']) = ''Downloads/c.txt'' \<and>
   insideDir downloadsDir ''Downloads/c.txt''"
proof -
  have "lookup siteFs (pathJoin uploadsDir ''sub/b.txt'') = Some (Regular [6])"
    by (simp add: run_eval)
  moreover have "resolve subFs (pathJoin downloadsDir ''sub/../c.txt'') =
      Inr (False, [''Downloads'', ''c.txt''])"
    by (simp add: run_eval)
  moreover have "keyOf (False, [''Downloads'', ''c.txt'']) = ''Downloads/c.txt''"
    by (simp add: keyOf_def)
  moreover have "insideDir downloadsDir ''Downloads/sub/b.txt''"
    "insideDir downloadsDir ''Downloads/c.txt''"
    by (simp_all add: insideDir_def downloadsDir_def)
  ultimately show ?thesis
    using run_nested by simp
qed

text \<open>
  Claim C10, as amended. \<open>loadAddressBook\<close> returns the empty dictionary when the
  address-book file cannot be opened (absent, unreadable) and when reading it raises an
  \<open>IOError\<close> or its text is not JSON. When reading it raises another exception, as
  \<open>UnicodeDecodeError\<close> for bytes that are not UTF-8, the exception leaves
  \<open>loadAddressBook\<close>. Otherwise the function returns the value the JSON text denotes,
  whatever its type: a dictionary only when the text is a JSON object.
\<close>

theorem loadAddressBook_cases:
  "(\<forall>e. openRead fs addressBookFile = Inl e \<longrightarrow> loadAddressBook loads fs = Inr (JObject [])) \<and>
   (\<forall>content e. openRead fs addressBookFile = Inr content \<and> loads content = Inl e \<and>
      (isIOError e \<or> e = JSONDecodeError) \<longrightarrow>
      loadAddressBook loads fs = Inr (JObject [])) \<and>
   (\<forall>content e. openRead fs addressBookFile = Inr content \<and> loads content = Inl e \<and>
      \<not> isIOError e \<and> e \<noteq> JSONDecodeError \<longrightarrow>
      loadAddressBook loads fs = Inl e) \<and>
   (\<forall>content book. openRead fs addressBookFile = Inr content \<and> loads content = Inr book \<longrightarrow>
      loadAddressBook loads fs = Inr book)"
proof -
  have n: "CHR 0x00 \<notin> set addressBookFile"
    by (simp add: addressBookFile_def)
  show ?thesis
    by (auto simp: loadAddressBook_def dest: openRead_IOError [OF n])
qed

theorem loadAddressBook_cases_witness:
  "loadAddressBook sampleLoads bareFs = Inr (JObject []) \<and>
   loadAddressBook sampleLoads badBookFs = Inr (JObject []) \<and>
   loadAddressBook sampleLoads binaryBookFs = Inl UnicodeDecodeError \<and>
   loadAddressBook sampleLoads bookFs =
     Inr (JObject [(''alice'', JString ''10.0.0.2:5000''), (''bob'', JString ''10.0.0.3:5000'')])"
proof -
  have a: "openRead bareFs addressBookFile = Inl FileNotFoundError"
    by (simp add: run_eval)
  have b: "openRead badBookFs addressBookFile = Inr (ascii ''hello'')"
    by (simp add: badBookFs_def run_eval)
  have c: \<open>openRead bookFs addressBookFile =
      Inr (ascii ''{"alice": "10.0.0.2:5000", "bob": "10.0.0.3:5000"}'')\<close>
    by (simp add: bookFs_def run_eval)
  have d: "openRead binaryBookFs addressBookFile = Inr [255, 254]"
    by (simp add: binaryBookFs_def run_eval)
  have j: "isIOError JSONDecodeError \<or> JSONDecodeError = JSONDecodeError"
    by simp
  have u: "\<not> isIOError UnicodeDecodeError \<and> UnicodeDecodeError \<noteq> JSONDecodeError"
    by simp
  from a loadAddressBook_cases [of bareFs sampleLoads]
  have one: "loadAddressBook sampleLoads bareFs = Inr (JObject [])"
    by blast
  from b sample_not_json j loadAddressBook_cases [of badBookFs sampleLoads]
  have two: "loadAddressBook sampleLoads badBookFs = Inr (JObject [])"
    by blast
  from d sample_binary u loadAddressBook_cases [of binaryBookFs sampleLoads]
  have three: "loadAddressBook sampleLoads binaryBookFs = Inl UnicodeDecodeError"
    by blast
  from c sample_book loadAddressBook_cases [of bookFs sampleLoads]
  have four: "loadAddressBook sampleLoads bookFs =
     Inr (JObject [(''alice'', JString ''10.0.0.2:5000''), (''bob'', JString ''10.0.0.3:5000'')])"
    by blast
  from one two three four show ?thesis by simp
qed

theorem address_book_counterexample:
  "loadAddressBook sampleLoads listBookFs = Inr (JArray []) \<and> \<not> isDict (JArray []) \<and>
   openRead binaryBookFs addressBookFile = Inr [255, 254] \<and>
   loadAddressBook sampleLoads binaryBookFs = Inl UnicodeDecodeError"
proof -
  have "openRead listBookFs addressBookFile = Inr (ascii ''[]'')"
    by (simp add: listBookFs_def run_eval)
  moreover have "openRead binaryBookFs addressBookFile = Inr [255, 254]"
    by (simp add: binaryBookFs_def run_eval)
  ultimately show ?thesis
    by (simp add: loadAddressBook_def sample_empty_array sample_binary isDict_def)
qed

end
